theory Spec2Isabelle
  imports Complex_Main
begin

section \<open>The activity agent: schedule evaluator\<close>

text \<open>
  The development follows \<^verbatim>\<open>modified_unified_agent.py\<close> (classes
  \<^verbatim>\<open>ActivityUtils\<close> and \<^verbatim>\<open>ActivityAgent\<close>, function \<^verbatim>\<open>main\<close>);
  \<^verbatim>\<open>unified_agent.py\<close> has the same code without the custom command overrides.
\<close>

subsection \<open>Python values: errors, times of day, instants\<close>

text \<open>The exceptions the modelled code can raise (all are subclasses of \<^verbatim>\<open>Exception\<close>).\<close>

datatype py_error = ValueError | OverflowError | IndexError

text \<open>
  \<^verbatim>\<open>datetime.time\<close>: four fields; naive times compare as the tuples
  \<^verbatim>\<open>(hour, minute, second, microsecond)\<close>, lexicographically.
\<close>

record pytime =
  hour :: nat
  minute :: nat
  second :: nat
  microsecond :: nat

definition valid_time :: "pytime \<Rightarrow> bool" where
  "valid_time t \<longleftrightarrow> hour t < 24 \<and> minute t < 60 \<and> second t < 60 \<and> microsecond t < 1000000"

definition time_le :: "pytime \<Rightarrow> pytime \<Rightarrow> bool" where
  "time_le a b \<longleftrightarrow>
     hour a < hour b \<or> (hour a = hour b \<and>
       (minute a < minute b \<or> (minute a = minute b \<and>
         (second a < second b \<or> (second a = second b \<and> microsecond a \<le> microsecond b)))))"

text \<open>
  \<^verbatim>\<open>datetime.datetime\<close>: a date, kept as its proleptic Gregorian ordinal
  (\<^verbatim>\<open>date.toordinal()\<close>, from 1 for 0001-01-01 to 3652059 for 9999-12-31), and a time of
  day. \<^verbatim>\<open>current_time.time()\<close> is the field \<open>tod\<close>, \<^verbatim>\<open>current_time.date()\<close> the
  field \<open>ordinal\<close>.
\<close>

record pydatetime =
  ordinal :: int
  tod :: pytime

definition valid_datetime :: "pydatetime \<Rightarrow> bool" where
  "valid_datetime d \<longleftrightarrow> 1 \<le> ordinal d \<and> ordinal d \<le> 3652059 \<and> valid_time (tod d)"

text \<open>Microseconds since midnight, and back.\<close>

definition time_us :: "pytime \<Rightarrow> int" where
  "time_us t = ((int (hour t) * 60 + int (minute t)) * 60 + int (second t)) * 1000000
                 + int (microsecond t)"

definition us_time :: "int \<Rightarrow> pytime" where
  "us_time k = \<lparr> hour = nat (k div 3600000000),
                 minute = nat ((k div 60000000) mod 60),
                 second = nat ((k div 1000000) mod 60),
                 microsecond = nat (k mod 1000000) \<rparr>"

definition day_us :: int where
  "day_us = 86400000000"

subsection \<open>\<^verbatim>\<open>datetime.strptime(s, '%H:%M').time()\<close>\<close>

text \<open>
  The format compiles to the regular expression
  \<^verbatim>\<open>(?P<H>2[0-3]|[0-1]\d|\d):(?P<M>[0-5]\d|\d)\<close>, matched at the start of the string;
  a string that does not match, or that is longer than the match, raises
  \<^verbatim>\<open>ValueError\<close>. Each field prefers its two-digit alternative. Backtracking
  never finds another match: if two digits were taken for the hour and no colon follows, the
  one-digit alternative would need the colon where the second digit is. Strings are
  byte strings here, so only the ASCII digits are digits.
\<close>

definition is_digit :: "char \<Rightarrow> bool" where
  "is_digit c \<longleftrightarrow> c \<in> set ''0123456789''"

definition digit_val :: "char \<Rightarrow> nat" where
  "digit_val c = of_char c - 48"

fun parse_field :: "nat \<Rightarrow> string \<Rightarrow> (nat \<times> string) option" where
  "parse_field b (c1 # c2 # r) =
     (if is_digit c1 \<and> is_digit c2 \<and> digit_val c1 * 10 + digit_val c2 \<le> b
      then Some (digit_val c1 * 10 + digit_val c2, r)
      else if is_digit c1 then Some (digit_val c1, c2 # r) else None)"
| "parse_field b [c1] = (if is_digit c1 then Some (digit_val c1, []) else None)"
| "parse_field b [] = None"

definition strptime_HM :: "string \<Rightarrow> py_error + pytime" where
  "strptime_HM s =
     (case parse_field 23 s of
        None \<Rightarrow> Inl ValueError
      | Some (h, r) \<Rightarrow>
          (case r of
             [] \<Rightarrow> Inl ValueError
           | c # r' \<Rightarrow>
               if c \<noteq> CHR '':'' then Inl ValueError
               else (case parse_field 59 r' of
                       None \<Rightarrow> Inl ValueError
                     | Some (m, rest) \<Rightarrow>
                         if rest = [] then Inr \<lparr> hour = h, minute = m, second = 0, microsecond = 0 \<rparr>
                         else Inl ValueError)))"

subsection \<open>The work schedule\<close>

text \<open>
  \<^verbatim>\<open>config['work_schedule']\<close>: the times are the configuration's strings, parsed at every
  evaluation. A schedule without the key \<^verbatim>\<open>breaks\<close> is one with the empty list
  (\<^verbatim>\<open>work_schedule.get('breaks', [])\<close>).
\<close>

record break_info =
  start :: string
  duration_minutes :: int

record work_schedule =
  start_time :: string
  end_time :: string
  breaks :: "break_info list"

text \<open>
  \<^verbatim>\<open>is_work_time\<close>:
  \<^verbatim>\<open>return start_time <= current_time_only <= end_time\<close>.
\<close>

definition is_work_time :: "pydatetime \<Rightarrow> work_schedule \<Rightarrow> py_error + bool" where
  "is_work_time current_time ws =
     (case strptime_HM (start_time ws) of
        Inl e \<Rightarrow> Inl e
      | Inr st \<Rightarrow>
          (case strptime_HM (end_time ws) of
             Inl e \<Rightarrow> Inl e
           | Inr en \<Rightarrow> Inr (time_le st (tod current_time) \<and> time_le (tod current_time) en)))"

text \<open>
  The end of a break:
  \<^verbatim>\<open>(datetime.combine(current_time.date(), break_start) + timedelta(minutes=d)).time()\<close>.
  \<^verbatim>\<open>timedelta\<close> raises \<^verbatim>\<open>OverflowError\<close> when its normalised number of days is
  beyond 999999999 in absolute value; the addition raises \<^verbatim>\<open>OverflowError\<close> when the
  resulting date leaves the years 1 to 9999. The result's \<^verbatim>\<open>.time()\<close> forgets the date: an end
  past midnight wraps to the early hours.
\<close>

definition break_end :: "pydatetime \<Rightarrow> pytime \<Rightarrow> int \<Rightarrow> py_error + pytime" where
  "break_end current_time break_start break_duration =
     (if \<bar>(break_duration * 60000000) div day_us\<bar> > 999999999 then Inl OverflowError
      else let total = time_us break_start + break_duration * 60000000;
               day = ordinal current_time + total div day_us
           in if day < 1 \<or> day > 3652059 then Inl OverflowError
              else Inr (us_time (total mod day_us)))"

text \<open>\<^verbatim>\<open>is_break_time\<close>: the loop over the breaks returns at the first window that holds the time.\<close>

fun is_break_time_loop :: "pydatetime \<Rightarrow> break_info list \<Rightarrow> py_error + bool" where
  "is_break_time_loop current_time [] = Inr False"
| "is_break_time_loop current_time (b # bs) =
     (case strptime_HM (start b) of
        Inl e \<Rightarrow> Inl e
      | Inr bstart \<Rightarrow>
          (case break_end current_time bstart (duration_minutes b) of
             Inl e \<Rightarrow> Inl e
           | Inr bend \<Rightarrow>
               if time_le bstart (tod current_time) \<and> time_le (tod current_time) bend
               then Inr True
               else is_break_time_loop current_time bs))"

definition is_break_time :: "pydatetime \<Rightarrow> work_schedule \<Rightarrow> py_error + bool" where
  "is_break_time current_time ws = is_break_time_loop current_time (breaks ws)"

text \<open>
  The classification the main loop makes at the top of every iteration: first
  \<^verbatim>\<open>if not is_work_time(...)\<close>, then \<^verbatim>\<open>if is_break_time(...)\<close>, else the working branch.
\<close>

datatype sched_state = OFF_HOURS | ON_BREAK | WORKING

definition classify :: "pydatetime \<Rightarrow> work_schedule \<Rightarrow> py_error + sched_state" where
  "classify current_time ws =
     (case is_work_time current_time ws of
        Inl e \<Rightarrow> Inl e
      | Inr False \<Rightarrow> Inr OFF_HOURS
      | Inr True \<Rightarrow>
          (case is_break_time current_time ws of
             Inl e \<Rightarrow> Inl e
           | Inr True \<Rightarrow> Inr ON_BREAK
           | Inr False \<Rightarrow> Inr WORKING))"

section \<open>The activity catalogue\<close>

text \<open>
  An activity is a description and its shell commands. An application's entry is a
  dictionary that may hold the keys \<^verbatim>\<open>open\<close>, \<^verbatim>\<open>close\<close> and \<^verbatim>\<open>activities\<close>: each
  field is optional, and the empty dictionary \<^verbatim>\<open>{}\<close>, which is what a failed lookup
  returns, has none of them. For such a value the test
  \<^verbatim>\<open>commands and 'open' in commands\<close> is the presence of the key.
\<close>

record activity =
  description :: string
  commands :: "string list"

record app_profile =
  open_cmd :: "string option"
  close_cmd :: "string option"
  activities :: "activity list option"

definition empty_profile :: app_profile where
  "empty_profile = \<lparr> open_cmd = None, close_cmd = None, activities = None \<rparr>"

text \<open>A shell word in single quotes, and one in double quotes.\<close>

definition sq :: "string \<Rightarrow> string" where
  "sq w = CHR 0x27 # w @ [CHR 0x27]"

definition dq :: "string \<Rightarrow> string" where
  "dq w = CHR 0x22 # w @ [CHR 0x22]"

text \<open>The built-in dictionary \<^verbatim>\<open>app_configs\<close> of \<^verbatim>\<open>get_application_commands\<close>.\<close>

definition app_configs :: "(string \<times> app_profile) list" where
  "app_configs =
    [(''Visual Studio Code'',
      \<lparr> open_cmd = Some ''code'', close_cmd = Some ''pkill -f code'',
        activities = Some
         [\<lparr> description = ''Opening a file'',
            commands = [''xdotool key ctrl+o'', ''sleep 2'', ''xdotool type '' @ sq ''main.py'',
                        ''xdotool key Return''] \<rparr>,
          \<lparr> description = ''Typing code'',
            commands = [''xdotool type '' @ sq (''print('' @ dq ''Hello World'' @ '')''),
                        ''xdotool key Return'', ''xdotool key ctrl+s''] \<rparr>,
          \<lparr> description = ''Search in files'',
            commands = [''xdotool key ctrl+shift+f'', ''sleep 1'', ''xdotool type '' @ sq ''function'',
                        ''xdotool key Return''] \<rparr>] \<rparr>),
     (''Slack'',
      \<lparr> open_cmd = Some ''slack'', close_cmd = Some ''pkill -f slack'',
        activities = Some
         [\<lparr> description = ''Checking messages'',
            commands = [''xdotool key ctrl+k'', ''sleep 1'', ''xdotool type '' @ sq ''general'',
                        ''xdotool key Return''] \<rparr>,
          \<lparr> description = ''Typing message'',
            commands = [''xdotool type '' @ sq ''Good morning team!'', ''xdotool key Return''] \<rparr>] \<rparr>),
     (''Google Chrome'',
      \<lparr> open_cmd = Some ''google-chrome'', close_cmd = Some ''pkill -f chrome'',
        activities = Some
         [\<lparr> description = ''Browsing documentation'',
            commands = [''xdotool key ctrl+l'', ''xdotool type '' @ sq ''https://docs.python.org'',
                        ''xdotool key Return'', ''sleep 5'', ''xdotool key ctrl+f'',
                        ''xdotool type '' @ sq ''function''] \<rparr>,
          \<lparr> description = ''Opening new tab'',
            commands = [''xdotool key ctrl+t'', ''xdotool type '' @ sq ''https://stackoverflow.com'',
                        ''xdotool key Return''] \<rparr>,
          \<lparr> description = ''Scrolling page'',
            commands = [''xdotool key Page_Down'', ''sleep 2'', ''xdotool key Page_Down'', ''sleep 2'',
                        ''xdotool key Page_Up''] \<rparr>] \<rparr>),
     (''Firefox'',
      \<lparr> open_cmd = Some ''firefox'', close_cmd = Some ''pkill -f firefox'',
        activities = Some
         [\<lparr> description = ''Browsing web'',
            commands = [''xdotool key ctrl+l'', ''xdotool type '' @ sq ''https://github.com'',
                        ''xdotool key Return''] \<rparr>] \<rparr>),
     (''Docker Desktop'',
      \<lparr> open_cmd = Some ''docker'', close_cmd = Some ''pkill -f docker'',
        activities = Some
         [\<lparr> description = ''Checking containers'',
            commands = [''docker ps'', ''sleep 2'', ''docker images''] \<rparr>,
          \<lparr> description = ''Building image'',
            commands = [''docker build -t test-app .'', ''sleep 10''] \<rparr>] \<rparr>)]"

text \<open>
  \<^verbatim>\<open>get_application_commands(app_name, custom_commands)\<close>. The name is a Python value
  that is a string or \<^verbatim>\<open>None\<close> (the callers pass \<^verbatim>\<open>self.current_app\<close>); the keys of both
  dictionaries are strings, so \<^verbatim>\<open>None\<close> is in neither. The custom commands come first; a
  name in neither dictionary gives \<^verbatim>\<open>{}\<close>. An absent or empty \<^verbatim>\<open>custom_commands\<close> is the
  empty list.
\<close>

definition get_application_commands ::
  "string option \<Rightarrow> (string \<times> app_profile) list \<Rightarrow> app_profile" where
  "get_application_commands app_name custom =
     (case app_name of
        None \<Rightarrow> empty_profile
      | Some n \<Rightarrow>
          (case map_of custom n of
             Some p \<Rightarrow> p
           | None \<Rightarrow> (case map_of app_configs n of Some p \<Rightarrow> p | None \<Rightarrow> empty_profile)))"

section \<open>The agent\<close>

subsection \<open>Configuration, environment, events\<close>

record config =
  username :: "string option"
  role :: "string option"
  work_sched :: work_schedule
  applications_used :: "string list"
  custom_commands :: "(string \<times> app_profile) list"

text \<open>
  What the agent asks of the world, one answer per question: the \<open>n\<close>-th question is
  answered by the environment at index \<open>n\<close>, and the agent's field \<open>tick\<close> counts the
  questions asked so far. \<open>proc\<close> is the outcome of \<^verbatim>\<open>subprocess.run\<close> on a command,
  \<open>rnd\<close> the random number behind \<^verbatim>\<open>random.choice\<close>, \<^verbatim>\<open>random.randint\<close> and
  \<^verbatim>\<open>random.uniform\<close>, \<open>clock\<close> is \<^verbatim>\<open>time.time()\<close> and \<open>wall\<close> is \<^verbatim>\<open>datetime.now()\<close>.
\<close>

datatype proc_result =
    Completed int string
  | Raised string

record env =
  proc :: "nat \<Rightarrow> string \<Rightarrow> proc_result"
  rnd :: "nat \<Rightarrow> nat"
  clock :: "nat \<Rightarrow> real"
  wall :: "nat \<Rightarrow> pydatetime"

text \<open>
  What the agent does to the world, in order: calls of the executor
  (\<^verbatim>\<open>subprocess.run(command, shell=True, ...)\<close>, marked with the method that made the call and
  the application it was made for), log records and sleeps. The durations printed in the log
  records of \<^verbatim>\<open>run_command\<close> and the length of the pause \<^verbatim>\<open>random.uniform(1, 3)\<close> are
  floating-point numbers and are left out.
\<close>

datatype call_site = Open_call | Close_call | Step_call

datatype level = INFO | WARNING | ERROR

datatype log_msg =
    Starting_agent "string option"
  | Role_is "string option"
  | Schedule_is work_schedule
  | Applications_are "string list"
  | Opening_application "string option"
  | Closing_application "string option"
  | Simulating_activity "string option" string
  | Success string
  | Command_failed string string
  | Command_error string string
  | Work_time_ended
  | Outside_work_hours
  | Break_time_closing
  | Break_time_sleeping
  | Pausing int
  | Agent_stopped_by_user
  | Agent_crashed py_error

datatype event =
    Executor call_site "string option" string
  | Log level log_msg
  | Sleep_for int
  | Sleep_uniform

text \<open>The agent: the session state, and the history of its dealings with the world.\<close>

record agent =
  current_app :: "string option"
  app_start_time :: "real option"
  session_duration :: int
  trace :: "event list"
  tick :: nat

subsection \<open>Primitive effects\<close>

definition emit :: "event \<Rightarrow> agent \<Rightarrow> agent" where
  "emit e s = s\<lparr> trace := trace s @ [e] \<rparr>"

definition logging :: "level \<Rightarrow> log_msg \<Rightarrow> agent \<Rightarrow> agent" where
  "logging l m s = emit (Log l m) s"

definition sleep :: "int \<Rightarrow> agent \<Rightarrow> agent" where
  "sleep n s = emit (Sleep_for n) s"

text \<open>\<^verbatim>\<open>random.randint(a, b)\<close>, for \<open>a \<le> b\<close>: a number from \<open>a\<close> to \<open>b\<close>, both included.\<close>

definition randint :: "env \<Rightarrow> int \<Rightarrow> int \<Rightarrow> agent \<Rightarrow> int \<times> agent" where
  "randint w a b s = (a + int (rnd w (tick s) mod nat (b - a + 1)), s\<lparr> tick := tick s + 1 \<rparr>)"

text \<open>\<^verbatim>\<open>random.choice(seq)\<close>: \<^verbatim>\<open>IndexError\<close> on the empty sequence.\<close>

definition choice :: "env \<Rightarrow> 'a list \<Rightarrow> agent \<Rightarrow> py_error + ('a \<times> agent)" where
  "choice w seq s =
     (if seq = [] then Inl IndexError
      else Inr (seq ! (rnd w (tick s) mod length seq), s\<lparr> tick := tick s + 1 \<rparr>))"

text \<open>\<^verbatim>\<open>time.sleep(random.uniform(1, 3))\<close>.\<close>

definition sleep_uniform :: "agent \<Rightarrow> agent" where
  "sleep_uniform s = emit Sleep_uniform (s\<lparr> tick := tick s + 1 \<rparr>)"

text \<open>Python's truth value of \<^verbatim>\<open>self.current_app\<close> and of \<^verbatim>\<open>self.app_start_time\<close>.\<close>

definition truthy_app :: "string option \<Rightarrow> bool" where
  "truthy_app a \<longleftrightarrow> (case a of None \<Rightarrow> False | Some n \<Rightarrow> n \<noteq> [])"

definition truthy_time :: "real option \<Rightarrow> bool" where
  "truthy_time t \<longleftrightarrow> (case t of None \<Rightarrow> False | Some x \<Rightarrow> x \<noteq> 0)"

subsection \<open>The methods of \<^verbatim>\<open>ActivityAgent\<close>\<close>

text \<open>\<^verbatim>\<open>__init__\<close>.\<close>

definition agent_init :: "env \<Rightarrow> agent" where
  "agent_init w =
     (let (d, s) = randint w 300 900
                     \<lparr> current_app = None, app_start_time = None, session_duration = 0,
                       trace = [], tick = 0 \<rparr>
      in s\<lparr> session_duration := d \<rparr>)"

text \<open>
  \<^verbatim>\<open>run_command\<close>: the command goes to the executor; whatever comes back (exit status zero,
  another exit status, an exception) is logged, and the method returns. The handler is
  \<^verbatim>\<open>except Exception\<close>: a \<^verbatim>\<open>KeyboardInterrupt\<close> is not an answer of the executor here,
  it is what \<open>main_interrupted\<close> below is about.
\<close>

definition run_command :: "env \<Rightarrow> call_site \<Rightarrow> string option \<Rightarrow> string \<Rightarrow> agent \<Rightarrow> agent" where
  "run_command w site app command s =
     (let s1 = emit (Executor site app command) (s\<lparr> tick := tick s + 1 \<rparr>)
      in case proc w (tick s) command of
           Completed returncode stderr \<Rightarrow>
             if returncode = 0 then logging INFO (Success command) s1
             else logging WARNING (Command_failed command stderr) s1
         | Raised e \<Rightarrow> logging ERROR (Command_error command e) s1)"

definition open_application :: "env \<Rightarrow> config \<Rightarrow> string option \<Rightarrow> agent \<Rightarrow> bool \<times> agent" where
  "open_application w cfg app_name s =
     (case open_cmd (get_application_commands app_name (custom_commands cfg)) of
        Some c \<Rightarrow>
          (let s1 = logging INFO (Opening_application app_name) s;
               s2 = run_command w Open_call app_name c s1
           in (True, s2\<lparr> current_app := app_name,
                          app_start_time := Some (clock w (tick s2)),
                          tick := tick s2 + 1 \<rparr>))
      | None \<Rightarrow> (False, s))"

definition close_application :: "env \<Rightarrow> config \<Rightarrow> string option \<Rightarrow> agent \<Rightarrow> agent" where
  "close_application w cfg app_name s =
     (let s1 = (case close_cmd (get_application_commands app_name (custom_commands cfg)) of
                  Some c \<Rightarrow> run_command w Close_call app_name c
                              (logging INFO (Closing_application app_name) s)
                | None \<Rightarrow> s)
      in s1\<lparr> current_app := None, app_start_time := None \<rparr>)"

text \<open>The loop \<^verbatim>\<open>for cmd in activity['commands']\<close> of \<^verbatim>\<open>simulate_activity\<close>.\<close>

fun run_steps :: "env \<Rightarrow> string option \<Rightarrow> string list \<Rightarrow> agent \<Rightarrow> agent" where
  "run_steps w app [] s = s"
| "run_steps w app (cmd # cmds) s =
     run_steps w app cmds (sleep_uniform (run_command w Step_call app cmd s))"

text \<open>
  \<^verbatim>\<open>simulate_activity\<close>. The result's first component is the exception that left the
  method, if one did.
\<close>

definition simulate_activity ::
  "env \<Rightarrow> config \<Rightarrow> string option \<Rightarrow> agent \<Rightarrow> py_error option \<times> agent" where
  "simulate_activity w cfg app_name s =
     (case activities (get_application_commands app_name (custom_commands cfg)) of
        None \<Rightarrow> (None, s)
      | Some acts \<Rightarrow>
          (case choice w acts s of
             Inl e \<Rightarrow> (Some e, s)
           | Inr (act, s1) \<Rightarrow>
               (None, run_steps w app_name (commands act)
                        (logging INFO (Simulating_activity app_name (description act)) s1))))"

definition should_switch_app :: "env \<Rightarrow> agent \<Rightarrow> bool \<times> agent" where
  "should_switch_app w s =
     (case app_start_time s of
        None \<Rightarrow> (True, s)
      | Some t0 \<Rightarrow>
          if \<not> truthy_app (current_app s) \<or> \<not> truthy_time (app_start_time s) then (True, s)
          else (clock w (tick s) - t0 \<ge> real_of_int (session_duration s),
                s\<lparr> tick := tick s + 1 \<rparr>))"

definition get_next_app :: "env \<Rightarrow> config \<Rightarrow> agent \<Rightarrow> string option \<times> agent" where
  "get_next_app w cfg s =
     (let apps = applications_used cfg
      in if apps = [] then (None, s)
         else let available_apps = filter (\<lambda>app. Some app \<noteq> current_app s) apps;
                  available_apps = (if available_apps = [] then apps else available_apps)
              in (Some (available_apps ! (rnd w (tick s) mod length available_apps)),
                  s\<lparr> tick := tick s + 1 \<rparr>))"

subsection \<open>The main loop\<close>

text \<open>
  The statement \<^verbatim>\<open>if self.current_app: self.close_application(self.current_app)\<close>, which
  the loop has three times and \<^verbatim>\<open>main\<close> twice.
\<close>

definition close_current :: "env \<Rightarrow> config \<Rightarrow> agent \<Rightarrow> agent" where
  "close_current w cfg s =
     (if truthy_app (current_app s) then close_application w cfg (current_app s) s else s)"

text \<open>The body of \<^verbatim>\<open>if self.should_switch_app():\<close>.\<close>

definition switch_app :: "env \<Rightarrow> config \<Rightarrow> agent \<Rightarrow> agent" where
  "switch_app w cfg s =
     (let s1 = close_current w cfg s;
          (pause_time, s2) = randint w 30 120 s1;
          s3 = sleep pause_time (logging INFO (Pausing pause_time) s2);
          (next_app, s4) = get_next_app w cfg s3
      in if truthy_app next_app
         then (case open_application w cfg next_app s4 of
                 (True, s5) \<Rightarrow>
                   (let (d, s6) = randint w 300 900 s5
                    in sleep 5 (s6\<lparr> session_duration := d \<rparr>))
               | (False, s5) \<Rightarrow> s5)
         else s4)"

text \<open>The part of an iteration after the two schedule tests.\<close>

definition working_iteration :: "env \<Rightarrow> config \<Rightarrow> agent \<Rightarrow> py_error option \<times> agent" where
  "working_iteration w cfg s =
     (let (sw, s1) = should_switch_app w s;
          s2 = (if sw then switch_app w cfg s1 else s1)
      in case (if truthy_app (current_app s2)
               then simulate_activity w cfg (current_app s2) s2 else (None, s2)) of
           (Some e, s3) \<Rightarrow> (Some e, s3)
         | (None, s3) \<Rightarrow>
             (let (activity_pause, s4) = randint w 10 60 s3
              in (None, sleep activity_pause s4)))"

text \<open>
  One iteration of \<^verbatim>\<open>while True\<close>. The result's first component is the exception that
  left the iteration, if one did; the exceptions of the two schedule tests leave it before
  anything else is done.
\<close>

definition iteration :: "env \<Rightarrow> config \<Rightarrow> agent \<Rightarrow> py_error option \<times> agent" where
  "iteration w cfg s =
     (let current_time = wall w (tick s);
          s0 = s\<lparr> tick := tick s + 1 \<rparr>
      in case is_work_time current_time (work_sched cfg) of
           Inl e \<Rightarrow> (Some e, s0)
         | Inr False \<Rightarrow>
             (let s1 = (if truthy_app (current_app s0)
                        then close_application w cfg (current_app s0)
                               (logging INFO Work_time_ended s0)
                        else s0)
              in (None, sleep 300 (logging INFO Outside_work_hours s1)))
         | Inr True \<Rightarrow>
             (case is_break_time current_time (work_sched cfg) of
                Inl e \<Rightarrow> (Some e, s0)
              | Inr True \<Rightarrow>
                  (let s1 = (if truthy_app (current_app s0)
                             then close_application w cfg (current_app s0)
                                    (logging INFO Break_time_closing s0)
                             else s0)
                   in (None, sleep 300 (logging INFO Break_time_sleeping s1)))
              | Inr False \<Rightarrow> working_iteration w cfg s0))"

text \<open>
  The loop never ends by itself: \<open>run_loop w cfg n\<close> is its first \<open>n\<close> iterations, or
  fewer when an exception leaves it. \<open>run\<close> is the method: four log records, then the loop.
\<close>

fun run_loop :: "env \<Rightarrow> config \<Rightarrow> nat \<Rightarrow> agent \<Rightarrow> py_error option \<times> agent" where
  "run_loop w cfg 0 s = (None, s)"
| "run_loop w cfg (Suc n) s =
     (case iteration w cfg s of
        (Some e, s') \<Rightarrow> (Some e, s')
      | (None, s') \<Rightarrow> run_loop w cfg n s')"

definition run :: "env \<Rightarrow> config \<Rightarrow> nat \<Rightarrow> agent \<Rightarrow> py_error option \<times> agent" where
  "run w cfg n s =
     run_loop w cfg n
       (logging INFO (Applications_are (applications_used cfg))
         (logging INFO (Schedule_is (work_sched cfg))
           (logging INFO (Role_is (role cfg))
             (logging INFO (Starting_agent (username cfg)) s))))"

text \<open>
  \<^verbatim>\<open>main\<close>, from the construction of the agent. The handler of \<^verbatim>\<open>KeyboardInterrupt\<close> and
  the handler of \<^verbatim>\<open>Exception\<close> both close the current application. \<open>main\<close> is the
  agent after \<open>n\<close> iterations, with the second handler run if an exception left the loop;
  \<open>main_interrupted\<close> is the agent when the interrupt arrives after \<open>n\<close> whole iterations.
\<close>

definition on_keyboard_interrupt :: "env \<Rightarrow> config \<Rightarrow> agent \<Rightarrow> agent" where
  "on_keyboard_interrupt w cfg s = close_current w cfg (logging INFO Agent_stopped_by_user s)"

definition on_exception :: "env \<Rightarrow> config \<Rightarrow> py_error \<Rightarrow> agent \<Rightarrow> agent" where
  "on_exception w cfg e s = close_current w cfg (logging ERROR (Agent_crashed e) s)"

definition main :: "env \<Rightarrow> config \<Rightarrow> nat \<Rightarrow> agent" where
  "main w cfg n =
     (case run w cfg n (agent_init w) of
        (Some e, s) \<Rightarrow> on_exception w cfg e s
      | (None, s) \<Rightarrow> s)"

definition main_interrupted :: "env \<Rightarrow> config \<Rightarrow> nat \<Rightarrow> agent" where
  "main_interrupted w cfg n =
     (case run w cfg n (agent_init w) of
        (Some e, s) \<Rightarrow> on_exception w cfg e s
      | (None, s) \<Rightarrow> on_keyboard_interrupt w cfg s)"




section \<open>Observations and example data\<close>

subsection \<open>Reading a trace\<close>

text \<open>What an operation added to the trace.\<close>

definition new_events :: "agent \<Rightarrow> agent \<Rightarrow> event list" where
  "new_events s s' = drop (length (trace s)) (trace s')"

text \<open>
  The events of a simulated activity: the log record that names the chosen activity script,
  and the executor calls for the script's steps.
\<close>

fun is_simulation :: "event \<Rightarrow> bool" where
  "is_simulation (Executor Step_call a c) = True"
| "is_simulation (Log l (Simulating_activity a d)) = True"
| "is_simulation e = False"

fun is_open_call :: "event \<Rightarrow> bool" where
  "is_open_call (Executor Open_call a c) = True"
| "is_open_call e = False"

fun is_warning :: "event \<Rightarrow> bool" where
  "is_warning (Log WARNING m) = True"
| "is_warning e = False"

text \<open>The executor calls of a trace, in order: who called, for which application, what command.\<close>

fun executor_calls :: "event list \<Rightarrow> (call_site \<times> string option \<times> string) list" where
  "executor_calls [] = []"
| "executor_calls (Executor site a c # es) = (site, a, c) # executor_calls es"
| "executor_calls (e # es) = executor_calls es"

text \<open>
  Reading the open and close commands of a trace from left to right, with a flag that says
  whether the last of them was an open command: the result is \<open>None\<close> when an open command
  comes while the flag is set, that is, when two open commands have no close command between
  them; otherwise it is the flag at the end.
\<close>

fun opens_closed :: "bool \<Rightarrow> event list \<Rightarrow> bool option" where
  "opens_closed f [] = Some f"
| "opens_closed f (Executor Open_call a c # es) = (if f then None else opens_closed True es)"
| "opens_closed f (Executor Close_call a c # es) = opens_closed False es"
| "opens_closed f (e # es) = opens_closed f es"

definition at_most_one_open :: "event list \<Rightarrow> bool" where
  "at_most_one_open tr \<longleftrightarrow> opens_closed False tr \<noteq> None"

fun is_close_call :: "event \<Rightarrow> bool" where
  "is_close_call (Executor Close_call a c) = True"
| "is_close_call e = False"

text \<open>Events that are neither an open command nor a close command.\<close>

definition neutral :: "event list \<Rightarrow> bool" where
  "neutral evs \<longleftrightarrow> list_all (\<lambda>e. \<not> is_open_call e \<and> \<not> is_close_call e) evs"

text \<open>
  The invariant of the session: the flag of the trace says whether an application is
  current, and the current application is a non-empty name of the configured list that the
  catalogue can open.
\<close>

definition session_inv :: "config \<Rightarrow> agent \<Rightarrow> bool" where
  "session_inv cfg s \<longleftrightarrow>
     opens_closed False (trace s) = Some (current_app s \<noteq> None)
     \<and> (\<forall>a. current_app s = Some a \<longrightarrow>
           a \<noteq> [] \<and> a \<in> set (applications_used cfg)
           \<and> open_cmd (get_application_commands (Some a) (custom_commands cfg)) \<noteq> None)"

text \<open>Events that are neither part of a simulated activity nor an open command.\<close>

definition quiet :: "event list \<Rightarrow> bool" where
  "quiet evs \<longleftrightarrow> list_all (\<lambda>e. \<not> is_simulation e \<and> \<not> is_open_call e) evs"

text \<open>\<open>current_app\<close> is \<^verbatim>\<open>None\<close> exactly when \<open>app_start_time\<close> is.\<close>

definition coherent :: "agent \<Rightarrow> bool" where
  "coherent s \<longleftrightarrow> (current_app s = None \<longleftrightarrow> app_start_time s = None)"

text \<open>A name that is in neither dictionary of the catalogue.\<close>

definition lookup_miss :: "config \<Rightarrow> string option \<Rightarrow> bool" where
  "lookup_miss cfg app_name \<longleftrightarrow>
     (case app_name of
        None \<Rightarrow> True
      | Some n \<Rightarrow> map_of (custom_commands cfg) n = None \<and> map_of app_configs n = None)"

text \<open>Every custom entry that has an open command has a close command.\<close>

definition closable :: "config \<Rightarrow> bool" where
  "closable cfg \<longleftrightarrow>
     list_all (\<lambda>(n, p). open_cmd p \<noteq> None \<longrightarrow> close_cmd p \<noteq> None) (custom_commands cfg)"

subsection \<open>The schedule classification in the specification's words\<close>

text \<open>
  A time string as microseconds since midnight (zero for a string that is not a time), and
  the classification as the specification words it: off hours strictly before the start or
  strictly after the end; otherwise on break when some window from a break's start to its
  start plus its duration holds the time; otherwise working.
\<close>

definition parses :: "string \<Rightarrow> bool" where
  "parses str \<longleftrightarrow> (case strptime_HM str of Inl e \<Rightarrow> False | Inr t \<Rightarrow> True)"

definition hm_us :: "string \<Rightarrow> int" where
  "hm_us str = (case strptime_HM str of Inl e \<Rightarrow> 0 | Inr t \<Rightarrow> time_us t)"

definition window_contains :: "break_info \<Rightarrow> pytime \<Rightarrow> bool" where
  "window_contains b t \<longleftrightarrow>
     hm_us (start b) \<le> time_us t \<and> time_us t \<le> hm_us (start b) + duration_minutes b * 60000000"

definition spec_classify :: "pydatetime \<Rightarrow> work_schedule \<Rightarrow> sched_state" where
  "spec_classify now ws =
     (if time_us (tod now) < hm_us (start_time ws) \<or> hm_us (end_time ws) < time_us (tod now)
      then OFF_HOURS
      else if list_ex (\<lambda>b. window_contains b (tod now)) (breaks ws) then ON_BREAK
      else WORKING)"

text \<open>A break whose start is a time and whose end falls on the day of its start.\<close>

definition ends_same_day :: "break_info \<Rightarrow> bool" where
  "ends_same_day b \<longleftrightarrow>
     parses (start b) \<and> 0 \<le> hm_us (start b) + duration_minutes b * 60000000
       \<and> hm_us (start b) + duration_minutes b * 60000000 < day_us"

subsection \<open>Example data\<close>

text \<open>
  The work schedule and the configuration of \<^verbatim>\<open>DEFAULT_USER_CONFIG\<close>, which is also the
  \<^verbatim>\<open>USER_CONFIG\<close> of \<^verbatim>\<open>unified_agent.py\<close>.
\<close>

definition default_schedule :: work_schedule where
  "default_schedule =
     \<lparr> start_time = ''09:00'', end_time = ''18:00'',
       breaks = [\<lparr> start = ''13:00'', duration_minutes = 60 \<rparr>] \<rparr>"

definition default_config :: config where
  "default_config =
     \<lparr> username = Some ''john_doe'', role = Some ''Junior Developer'',
       work_sched = default_schedule,
       applications_used = [''Visual Studio Code'', ''Google Chrome'', ''Slack'', ''Docker Desktop''],
       custom_commands = [] \<rparr>"

text \<open>An instant with whole minutes, on the day with ordinal \<open>d\<close>.\<close>

definition instant :: "int \<Rightarrow> nat \<Rightarrow> nat \<Rightarrow> pydatetime" where
  "instant d h m = \<lparr> ordinal = d, tod = \<lparr> hour = h, minute = m, second = 0, microsecond = 0 \<rparr> \<rparr>"

text \<open>
  A world where every command succeeds, every random number is \<open>r\<close>, the clock advances a
  second per question and it is always \<open>h:m\<close> on day 739558.
\<close>

definition still_env :: "nat \<Rightarrow> nat \<Rightarrow> nat \<Rightarrow> env" where
  "still_env r h m =
     \<lparr> proc = (\<lambda>n c. Completed 0 []), rnd = (\<lambda>n. r), clock = (\<lambda>n. 1000 + real n),
       wall = (\<lambda>n. instant 739558 h m) \<rparr>"

text \<open>A world like it where every command fails with exit status 1.\<close>

definition failing_env :: env where
  "failing_env = (still_env 0 10 0)\<lparr> proc := (\<lambda>n c. Completed 1 ''failed'') \<rparr>"

text \<open>A schedule whose break, two hours from 23:00, ends after midnight.\<close>

definition late_schedule :: work_schedule where
  "late_schedule =
     \<lparr> start_time = ''09:00'', end_time = ''23:59'',
       breaks = [\<lparr> start = ''23:00'', duration_minutes = 120 \<rparr>] \<rparr>"

text \<open>The default schedule without its break.\<close>

definition plain_schedule :: work_schedule where
  "plain_schedule = \<lparr> start_time = ''09:00'', end_time = ''18:00'', breaks = [] \<rparr>"

text \<open>The configuration that \<^verbatim>\<open>save_sample_config\<close> writes, with a custom entry.\<close>

definition sample_config :: config where
  "sample_config =
     \<lparr> username = Some ''alice_smith'', role = Some ''Senior Developer'',
       work_sched =
         \<lparr> start_time = ''08:30'', end_time = ''17:30'',
           breaks = [\<lparr> start = ''12:30'', duration_minutes = 45 \<rparr>,
                     \<lparr> start = ''15:30'', duration_minutes = 15 \<rparr>] \<rparr>,
       applications_used =
         [''Visual Studio Code'', ''Firefox'', ''Slack'', ''Docker Desktop'', ''Terminal''],
       custom_commands =
         [(''Terminal'',
           \<lparr> open_cmd = Some ''gnome-terminal'', close_cmd = Some ''pkill -f gnome-terminal'',
             activities = Some [\<lparr> description = ''Checking system status'',
                                  commands = [''htop'', ''sleep 5'', ''q''] \<rparr>] \<rparr>)] \<rparr>"

text \<open>An agent in the middle of a session with the application \<open>x\<close>.\<close>

definition session_with :: "string \<Rightarrow> agent" where
  "session_with x =
     \<lparr> current_app = Some x, app_start_time = Some 1000, session_duration = 300,
       trace = [], tick = 1 \<rparr>"

text \<open>The default configuration with another list of applications.\<close>

definition config_with_apps :: "string list \<Rightarrow> config" where
  "config_with_apps apps = default_config\<lparr> applications_used := apps \<rparr>"

section \<open>Properties of the schedule evaluator\<close>

lemma strptime_default_times:
  "strptime_HM ''09:00'' = Inr \<lparr> hour = 9, minute = 0, second = 0, microsecond = 0 \<rparr>"
  "strptime_HM ''18:00'' = Inr \<lparr> hour = 18, minute = 0, second = 0, microsecond = 0 \<rparr>"
  "strptime_HM ''13:00'' = Inr \<lparr> hour = 13, minute = 0, second = 0, microsecond = 0 \<rparr>"
  by code_simp+

text \<open>
  Claim C3. With the break of 60 minutes from 13:00 in the work window from 09:00 to 18:00,
  on any day: 12:59 is working time, 13:00 and 14:00 are break time and 14:01 is working
  time again; the ends of the work window, 09:00 and 18:00, are working time, and the
  minutes before and after them are off hours.
\<close>

theorem break_and_work_windows_inclusive:
  assumes "1 \<le> d" and "d \<le> 3652059"
  shows "classify (instant d 12 59) default_schedule = Inr WORKING
       \<and> classify (instant d 13 0) default_schedule = Inr ON_BREAK
       \<and> classify (instant d 14 0) default_schedule = Inr ON_BREAK
       \<and> classify (instant d 14 1) default_schedule = Inr WORKING
       \<and> classify (instant d 9 0) default_schedule = Inr WORKING
       \<and> classify (instant d 18 0) default_schedule = Inr WORKING
       \<and> classify (instant d 8 59) default_schedule = Inr OFF_HOURS
       \<and> classify (instant d 18 1) default_schedule = Inr OFF_HOURS"
  using assms
  by (simp add: classify_def is_work_time_def is_break_time_def strptime_default_times
      default_schedule_def instant_def time_le_def break_end_def time_us_def us_time_def
      day_us_def)

theorem break_and_work_windows_inclusive_witness:
  "(1::int) \<le> 739558 \<and> (739558::int) \<le> 3652059
   \<and> classify (instant 739558 13 0) default_schedule = Inr ON_BREAK
   \<and> classify (instant 739558 14 0) default_schedule = Inr ON_BREAK
   \<and> classify (instant 739558 12 59) default_schedule = Inr WORKING
   \<and> classify (instant 739558 14 1) default_schedule = Inr WORKING"
  using break_and_work_windows_inclusive [of 739558] by simp

subsection \<open>Parsed times, and times as microseconds\<close>

lemma digit_val_le: "is_digit c \<Longrightarrow> digit_val c \<le> 9"
  by (auto simp: is_digit_def digit_val_def)

lemma parse_field_bound: "parse_field b s = Some (v, r) \<Longrightarrow> v \<le> max b 9"
  by (induction b s rule: parse_field.induct) (auto split: if_splits dest: digit_val_le)

lemma strptime_HM_valid:
  assumes "strptime_HM s = Inr t"
  shows "valid_time t \<and> second t = 0 \<and> microsecond t = 0"
  using assms unfolding strptime_HM_def valid_time_def
  by (auto split: option.splits list.splits if_splits dest!: parse_field_bound)

lemma time_le_us: "valid_time a \<Longrightarrow> valid_time b \<Longrightarrow> time_le a b \<longleftrightarrow> time_us a \<le> time_us b"
  unfolding valid_time_def time_le_def time_us_def
  by (cases a; cases b) (auto; linarith?)

lemma time_us_range: "valid_time t \<Longrightarrow> 0 \<le> time_us t \<and> time_us t < day_us"
  unfolding valid_time_def time_us_def day_us_def by (cases t) auto

lemma us_time_valid: "0 \<le> k \<Longrightarrow> k < day_us \<Longrightarrow> valid_time (us_time k)"
  unfolding valid_time_def us_time_def day_us_def
  by auto

lemma time_us_us_time:
  assumes "0 \<le> k" "k < day_us"
  shows "time_us (us_time k) = k"
proof -
  define q where "q = k div 1000000"
  define p where "p = q div 60"
  have q0: "0 \<le> q" using assms by (simp add: q_def)
  have p0: "0 \<le> p" using q0 by (simp add: p_def)
  have d1: "k div 60000000 = p"
    using zdiv_zmult2_eq [of 1000000 k 60] by (simp add: q_def p_def)
  have d2: "k div 3600000000 = p div 60"
    using zdiv_zmult2_eq [of 60000000 k 60] d1 by simp
  have e1: "k = q * 1000000 + k mod 1000000" by (simp add: q_def)
  have e2: "q = p * 60 + q mod 60" by (simp add: p_def)
  have e3: "p = (p div 60) * 60 + p mod 60" by simp
  have p60: "0 \<le> p div 60" using p0 by (simp add: pos_imp_zdiv_nonneg_iff)
  have e3': "3600000000 * (p div 60) + 60000000 * (p mod 60) = 60000000 * p"
    using e3 by linarith
  have "time_us (us_time k) =
        (((p div 60) * 60 + p mod 60) * 60 + q mod 60) * 1000000 + k mod 1000000"
    using assms q0 p0 p60 e3' by (simp add: time_us_def us_time_def d1 d2 q_def [symmetric])
  also have "\<dots> = (p * 60 + q mod 60) * 1000000 + k mod 1000000" by simp
  also have "\<dots> = q * 1000000 + k mod 1000000" unfolding p_def by simp
  also have "\<dots> = k" unfolding q_def by simp
  finally show ?thesis .
qed

lemma break_end_same_day:
  assumes "valid_datetime now" "valid_time bstart"
    and "0 \<le> time_us bstart + d * 60000000" "time_us bstart + d * 60000000 < day_us"
  shows "break_end now bstart d = Inr (us_time (time_us bstart + d * 60000000))"
proof -
  let ?total = "time_us bstart + d * 60000000"
  have r: "0 \<le> time_us bstart" "time_us bstart < day_us"
    using time_us_range [OF assms(2)] by simp_all
  have lo: "- day_us < d * 60000000" using assms(3) r by linarith
  have hi: "d * 60000000 < day_us" using assms(4) r by linarith
  have "(- day_us) div day_us \<le> (d * 60000000) div day_us"
    using lo by (intro zdiv_mono1) (simp_all add: day_us_def)
  moreover have "(d * 60000000) div day_us \<le> day_us div day_us"
    using hi by (intro zdiv_mono1) (simp_all add: day_us_def)
  ultimately have "- 1 \<le> (d * 60000000) div day_us \<and> (d * 60000000) div day_us \<le> 1"
    by (simp add: day_us_def)
  then have a: "\<not> \<bar>(d * 60000000) div day_us\<bar> > 999999999" by auto
  have b: "?total div day_us = 0" using assms(3,4) by (simp add: day_us_def)
  have c: "?total mod day_us = ?total" using assms(3,4) by (simp add: day_us_def)
  show ?thesis
    using assms(1) a b c by (simp add: break_end_def valid_datetime_def Let_def)
qed

lemma hm_us_eq: "strptime_HM s = Inr t \<Longrightarrow> hm_us s = time_us t"
  by (simp add: hm_us_def)

lemma parses_iff: "parses s \<longleftrightarrow> (\<exists>t. strptime_HM s = Inr t)"
  by (auto simp: parses_def split: sum.splits)

lemma is_break_time_loop_same_day:
  assumes "valid_datetime now" and "list_all ends_same_day bs"
  shows "is_break_time_loop now bs = Inr (list_ex (\<lambda>b. window_contains b (tod now)) bs)"
  using assms(2)
proof (induction bs)
  case Nil
  then show ?case by simp
next
  case (Cons b bs)
  from Cons.prems obtain t where t: "strptime_HM (start b) = Inr t"
    and lo: "0 \<le> time_us t + duration_minutes b * 60000000"
    and hi: "time_us t + duration_minutes b * 60000000 < day_us"
    by (auto simp: ends_same_day_def parses_iff hm_us_def)
  have vt: "valid_time t" using strptime_HM_valid [OF t] by simp
  have vn: "valid_time (tod now)" using assms(1) by (simp add: valid_datetime_def)
  have be: "break_end now t (duration_minutes b) = Inr (us_time (time_us t + duration_minutes b * 60000000))"
    using break_end_same_day [OF assms(1) vt lo hi] .
  have w: "(time_le t (tod now) \<and> time_le (tod now) (us_time (time_us t + duration_minutes b * 60000000)))
           \<longleftrightarrow> window_contains b (tod now)"
    using vt vn us_time_valid [OF lo hi] time_us_us_time [OF lo hi]
    by (simp add: time_le_us window_contains_def hm_us_eq [OF t])
  show ?case
    using Cons t be w by simp
qed

lemma off_hours_short_circuit:
  assumes "is_work_time now ws = Inr False"
  shows "classify now ws = Inr OFF_HOURS"
  using assms by (simp add: classify_def)

text \<open>
  Claim C2. For a valid instant and a schedule whose start and end are times: strictly before the start or strictly after the end the classification is
  \<open>OFF_HOURS\<close>, whatever the breaks are (they are not even parsed); when every break ends
  on the day it starts, the classification is the one of the specification (off hours, else
  on break when a window from a break's start to its start plus its duration holds the time,
  else working); and a schedule with no breaks is never \<open>ON_BREAK\<close>.
\<close>

theorem classify_correct_same_day:
  assumes "valid_datetime now" and "parses (start_time ws)" and "parses (end_time ws)"
  shows "(time_us (tod now) < hm_us (start_time ws) \<or> hm_us (end_time ws) < time_us (tod now)
            \<longrightarrow> classify now ws = Inr OFF_HOURS)
       \<and> (list_all ends_same_day (breaks ws) \<longrightarrow> classify now ws = Inr (spec_classify now ws))
       \<and> (breaks ws = [] \<longrightarrow> classify now ws \<noteq> Inr ON_BREAK)"
proof -
  from assms(2) obtain st where st: "strptime_HM (start_time ws) = Inr st"
    by (auto simp: parses_iff)
  from assms(3) obtain en where en: "strptime_HM (end_time ws) = Inr en"
    by (auto simp: parses_iff)
  have vn: "valid_time (tod now)" using assms(1) by (simp add: valid_datetime_def)
  have vs: "valid_time st" using strptime_HM_valid [OF st] by simp
  have ve: "valid_time en" using strptime_HM_valid [OF en] by simp
  have wt: "is_work_time now ws =
            Inr (hm_us (start_time ws) \<le> time_us (tod now) \<and> time_us (tod now) \<le> hm_us (end_time ws))"
    using st en vn vs ve by (simp add: is_work_time_def time_le_us hm_us_eq)
  have off: "time_us (tod now) < hm_us (start_time ws) \<or> hm_us (end_time ws) < time_us (tod now)
            \<Longrightarrow> classify now ws = Inr OFF_HOURS"
    using wt by (auto simp: classify_def)
  have same: "classify now ws = Inr (spec_classify now ws)" if "list_all ends_same_day (breaks ws)"
    using wt is_break_time_loop_same_day [OF assms(1) that]
    by (auto simp: classify_def spec_classify_def is_break_time_def)
  have nobreak: "classify now ws \<noteq> Inr ON_BREAK" if "breaks ws = []"
    using wt that by (auto simp: classify_def is_break_time_def split: sum.splits bool.splits)
  show ?thesis using off same nobreak by blast
qed

lemma example_instants_valid:
  "valid_datetime (instant 739558 8 0)" "valid_datetime (instant 739558 13 30)"
  by (simp_all add: valid_datetime_def valid_time_def instant_def)

lemma example_schedules_parse:
  "parses (start_time plain_schedule)" "parses (end_time plain_schedule)"
  "parses (start_time default_schedule)" "parses (end_time default_schedule)"
  by (simp_all add: parses_def plain_schedule_def default_schedule_def strptime_default_times)

lemma default_break_same_day: "list_all ends_same_day (breaks default_schedule)"
  by (simp add: default_schedule_def ends_same_day_def parses_def hm_us_def
      strptime_default_times time_us_def day_us_def)

lemma default_spec_on_break: "spec_classify (instant 739558 13 30) default_schedule = ON_BREAK"
  by (simp add: spec_classify_def default_schedule_def window_contains_def hm_us_def
      strptime_default_times time_us_def instant_def)

theorem classify_correct_same_day_witness:
  "valid_datetime (instant 739558 8 0) \<and> parses (start_time plain_schedule)
   \<and> parses (end_time plain_schedule)
   \<and> time_us (tod (instant 739558 8 0)) < hm_us (start_time plain_schedule)
   \<and> list_all ends_same_day (breaks plain_schedule) \<and> breaks plain_schedule = []
   \<and> classify (instant 739558 8 0) plain_schedule = Inr OFF_HOURS
   \<and> list_all ends_same_day (breaks default_schedule)
   \<and> classify (instant 739558 13 30) default_schedule = Inr ON_BREAK"
proof -
  have off: "time_us (tod (instant 739558 8 0)) < hm_us (start_time plain_schedule)"
    by (simp add: hm_us_def plain_schedule_def strptime_default_times time_us_def instant_def)
  have sd1: "list_all ends_same_day (breaks plain_schedule)" "breaks plain_schedule = []"
    by (simp_all add: plain_schedule_def)
  from classify_correct_same_day
         [OF example_instants_valid(1) example_schedules_parse(1) example_schedules_parse(2)] off
  have a: "classify (instant 739558 8 0) plain_schedule = Inr OFF_HOURS" by blast
  from classify_correct_same_day
         [OF example_instants_valid(2) example_schedules_parse(3) example_schedules_parse(4)]
       default_break_same_day default_spec_on_break
  have b: "classify (instant 739558 13 30) default_schedule = Inr ON_BREAK" by simp
  show ?thesis
    using example_instants_valid(1) example_schedules_parse(1,2) off sd1 default_break_same_day a b
    by simp
qed

text \<open>
  Outside the data model of the specification, which has no break that crosses midnight: the
  end of such a break is computed on the next day and \<^verbatim>\<open>.time()\<close> forgets the day. The break
  of two hours from 23:00 ends at 01:00, and 23:30 is classified \<open>WORKING\<close>; the break of
  1500 minutes from 13:00 ends at 14:00, and 13:30 is classified \<open>ON_BREAK\<close>.
\<close>

lemma strptime_late_times:
  "strptime_HM ''23:00'' = Inr \<lparr> hour = 23, minute = 0, second = 0, microsecond = 0 \<rparr>"
  "strptime_HM ''23:59'' = Inr \<lparr> hour = 23, minute = 59, second = 0, microsecond = 0 \<rparr>"
  by code_simp+

lemma break_past_midnight_wraps:
  "classify (instant 739558 23 30) late_schedule = Inr WORKING"
  "classify (instant 739558 13 30)
     \<lparr> start_time = ''09:00'', end_time = ''18:00'',
       breaks = [\<lparr> start = ''13:00'', duration_minutes = 1500 \<rparr>] \<rparr> = Inr ON_BREAK"
  by (simp_all add: classify_def is_work_time_def is_break_time_def strptime_default_times
      strptime_late_times late_schedule_def instant_def time_le_def break_end_def time_us_def
      us_time_def day_us_def)

section \<open>Properties of the agent\<close>

subsection \<open>Traces and the session invariant\<close>

lemma opens_closed_append:
  "opens_closed f (xs @ ys) = (case opens_closed f xs of None \<Rightarrow> None | Some g \<Rightarrow> opens_closed g ys)"
  by (induction f xs rule: opens_closed.induct) simp_all

lemma opens_closed_neutral: "neutral evs \<Longrightarrow> opens_closed f evs = Some f"
  by (induction f evs rule: opens_closed.induct) (simp_all add: neutral_def)

lemma neutral_append [simp]: "neutral (xs @ ys) \<longleftrightarrow> neutral xs \<and> neutral ys"
  by (simp add: neutral_def)

lemma neutral_Nil [simp]: "neutral []"
  by (simp add: neutral_def)

lemma executor_calls_append: "executor_calls (xs @ ys) = executor_calls xs @ executor_calls ys"
  by (induction xs rule: executor_calls.induct) simp_all

lemma run_command_trace:
  "\<exists>l m. trace (run_command w site app c s) = trace s @ [Executor site app c, Log l m]"
  by (simp add: run_command_def emit_def logging_def Let_def split: proc_result.splits)

lemma run_command_session [simp]:
  "current_app (run_command w site app c s) = current_app s"
  "app_start_time (run_command w site app c s) = app_start_time s"
  "session_duration (run_command w site app c s) = session_duration s"
  by (simp_all add: run_command_def emit_def logging_def Let_def split: proc_result.splits)

lemma run_steps_session [simp]:
  "current_app (run_steps w app cmds s) = current_app s"
  "app_start_time (run_steps w app cmds s) = app_start_time s"
  "session_duration (run_steps w app cmds s) = session_duration s"
  by (induction cmds arbitrary: s) (simp_all add: sleep_uniform_def emit_def)

lemma run_steps_trace:
  "\<exists>evs. trace (run_steps w app cmds s) = trace s @ evs \<and> neutral evs
       \<and> executor_calls evs = map (\<lambda>c. (Step_call, app, c)) cmds"
proof (induction cmds arbitrary: s)
  case Nil
  then show ?case by simp
next
  case (Cons c cmds)
  obtain l m where t1: "trace (run_command w Step_call app c s) = trace s @ [Executor Step_call app c, Log l m]"
    using run_command_trace by blast
  let ?s1 = "sleep_uniform (run_command w Step_call app c s)"
  have t2: "trace ?s1 = trace s @ [Executor Step_call app c, Log l m, Sleep_uniform]"
    using t1 by (simp add: sleep_uniform_def emit_def)
  from Cons.IH [of ?s1] obtain evs where
    e: "trace (run_steps w app cmds ?s1) = trace ?s1 @ evs" "neutral evs"
       "executor_calls evs = map (\<lambda>c. (Step_call, app, c)) cmds" by blast
  show ?case
    using e t2
    by (intro exI [of _ "[Executor Step_call app c, Log l m, Sleep_uniform] @ evs"])
       (simp add: neutral_def executor_calls_append)
qed


lemma builtin_closable: "map_of app_configs n = Some p \<Longrightarrow> close_cmd p \<noteq> None"
proof -
  assume "map_of app_configs n = Some p"
  then have "(n, p) \<in> set app_configs" by (rule map_of_SomeD)
  then show ?thesis by (auto simp: app_configs_def)
qed

lemma closable_close_cmd:
  assumes "closable cfg"
    and "open_cmd (get_application_commands a (custom_commands cfg)) \<noteq> None"
  shows "close_cmd (get_application_commands a (custom_commands cfg)) \<noteq> None"
proof (cases a)
  case None
  then show ?thesis using assms(2) by (simp add: get_application_commands_def empty_profile_def)
next
  case (Some n)
  show ?thesis
  proof (cases "map_of (custom_commands cfg) n")
    case None
    then show ?thesis
      using assms(2) Some builtin_closable [of n]
      by (auto simp: get_application_commands_def empty_profile_def split: option.splits)
  next
    case (Some p)
    then have "(n, p) \<in> set (custom_commands cfg)" by (rule map_of_SomeD)
    then have "open_cmd p \<noteq> None \<longrightarrow> close_cmd p \<noteq> None"
      using assms(1) by (auto simp: closable_def list_all_iff)
    then show ?thesis
      using assms(2) Some \<open>a = Some n\<close> by (simp add: get_application_commands_def)
  qed
qed

lemma inv_neutral_step:
  assumes "session_inv cfg s" and "current_app s' = current_app s"
    and "trace s' = trace s @ evs" and "neutral evs"
  shows "session_inv cfg s'"
  using assms by (simp add: session_inv_def opens_closed_append opens_closed_neutral)

lemma close_application_effect:
  "current_app (close_application w cfg a s) = None"
  "app_start_time (close_application w cfg a s) = None"
  "session_duration (close_application w cfg a s) = session_duration s"
  by (simp_all add: close_application_def Let_def logging_def emit_def split: option.splits)

lemma close_application_trace:
  "close_cmd (get_application_commands a (custom_commands cfg)) = Some c \<Longrightarrow>
     \<exists>l m. trace (close_application w cfg a s) =
       trace s @ [Log INFO (Closing_application a), Executor Close_call a c, Log l m]"
  "close_cmd (get_application_commands a (custom_commands cfg)) = None \<Longrightarrow>
     trace (close_application w cfg a s) = trace s"
  using run_command_trace [of w Close_call a c "logging INFO (Closing_application a) s"]
  by (auto simp: close_application_def Let_def logging_def emit_def)

lemma close_current_inv:
  assumes "closable cfg" and "session_inv cfg s"
  shows "session_inv cfg (close_current w cfg s) \<and> current_app (close_current w cfg s) = None"
proof (cases "current_app s")
  case None
  then show ?thesis using assms(2) by (simp add: close_current_def truthy_app_def)
next
  case (Some a)
  then have a: "a \<noteq> []"
    "open_cmd (get_application_commands (Some a) (custom_commands cfg)) \<noteq> None"
    using assms(2) by (simp_all add: session_inv_def)
  from closable_close_cmd [OF assms(1) a(2)] obtain c where
    c: "close_cmd (get_application_commands (Some a) (custom_commands cfg)) = Some c" by blast
  from close_application_trace(1) [OF c, of w s] obtain l m where
    t: "trace (close_application w cfg (Some a) s) =
        trace s @ [Log INFO (Closing_application (Some a)), Executor Close_call (Some a) c, Log l m]"
    by blast
  have f: "opens_closed False (trace s) = Some True"
    using assms(2) Some by (simp add: session_inv_def)
  show ?thesis
    using Some a(1) t f
    by (simp add: close_current_def truthy_app_def session_inv_def close_application_effect
        opens_closed_append)
qed

lemma open_application_effect:
  assumes "open_cmd (get_application_commands a (custom_commands cfg)) = Some c"
  shows "fst (open_application w cfg a s) = True"
    and "current_app (snd (open_application w cfg a s)) = a"
    and "app_start_time (snd (open_application w cfg a s)) \<noteq> None"
    and "\<exists>l m. trace (snd (open_application w cfg a s)) =
           trace s @ [Log INFO (Opening_application a), Executor Open_call a c, Log l m]"
  using assms run_command_trace [of w Open_call a c "logging INFO (Opening_application a) s"]
  by (auto simp: open_application_def Let_def logging_def emit_def)

lemma open_application_miss:
  assumes "open_cmd (get_application_commands a (custom_commands cfg)) = None"
  shows "open_application w cfg a s = (False, s)"
  using assms by (simp add: open_application_def)

lemma get_application_commands_None [simp]:
  "get_application_commands None custom = empty_profile"
  by (simp add: get_application_commands_def)

lemma open_application_inv:
  assumes "session_inv cfg s" and "current_app s = None"
    and "a \<noteq> []" and "a \<in> set (applications_used cfg)"
  shows "session_inv cfg (snd (open_application w cfg (Some a) s))"
proof (cases "open_cmd (get_application_commands (Some a) (custom_commands cfg))")
  case None
  then show ?thesis using assms(1) by (simp add: open_application_miss)
next
  case (Some c)
  from open_application_effect(4) [OF Some, of w s] obtain l m where
    t: "trace (snd (open_application w cfg (Some a) s)) =
          trace s @ [Log INFO (Opening_application (Some a)), Executor Open_call (Some a) c, Log l m]"
    by blast
  have f: "opens_closed False (trace s) = Some False"
    using assms(1,2) by (simp add: session_inv_def)
  show ?thesis
    using assms(3,4) Some t f open_application_effect(2) [OF Some, of w s]
    by (simp add: session_inv_def opens_closed_append)
qed

lemma get_next_app_result:
  "fst (get_next_app w cfg s) = None \<or>
   (\<exists>a \<in> set (applications_used cfg). fst (get_next_app w cfg s) = Some a)"
proof (cases "applications_used cfg = []")
  case True
  then show ?thesis by (simp add: get_next_app_def)
next
  case False
  let ?av = "filter (\<lambda>app. Some app \<noteq> current_app s) (applications_used cfg)"
  let ?av' = "if ?av = [] then applications_used cfg else ?av"
  have ne: "?av' \<noteq> []" using False by simp
  then have "?av' ! (rnd w (tick s) mod length ?av') \<in> set ?av'"
    by (intro nth_mem) simp
  moreover have "set ?av' \<subseteq> set (applications_used cfg)" by auto
  ultimately have "?av' ! (rnd w (tick s) mod length ?av') \<in> set (applications_used cfg)" by blast
  then show ?thesis using False by (simp add: get_next_app_def Let_def)
qed

lemma get_next_app_state:
  "snd (get_next_app w cfg s) = s \<or> snd (get_next_app w cfg s) = s\<lparr> tick := tick s + 1 \<rparr>"
  by (simp add: get_next_app_def Let_def)


lemma simulate_activity_effect:
  "current_app (snd (simulate_activity w cfg a s)) = current_app s"
  "app_start_time (snd (simulate_activity w cfg a s)) = app_start_time s"
  "\<exists>evs. trace (snd (simulate_activity w cfg a s)) = trace s @ evs \<and> neutral evs"
proof -
  show "current_app (snd (simulate_activity w cfg a s)) = current_app s"
    by (simp add: simulate_activity_def choice_def logging_def emit_def
        split: option.splits sum.splits prod.splits)
  show "app_start_time (snd (simulate_activity w cfg a s)) = app_start_time s"
    by (simp add: simulate_activity_def choice_def logging_def emit_def
        split: option.splits sum.splits prod.splits)
  show "\<exists>evs. trace (snd (simulate_activity w cfg a s)) = trace s @ evs \<and> neutral evs"
  proof (cases "activities (get_application_commands a (custom_commands cfg))")
    case None
    then show ?thesis by (simp add: simulate_activity_def)
  next
    case (Some acts)
    show ?thesis
    proof (cases "acts = []")
      case True
      then show ?thesis using Some by (simp add: simulate_activity_def choice_def)
    next
      case False
      define act where "act = acts ! (rnd w (tick s) mod length acts)"
      define s2 where "s2 = logging INFO (Simulating_activity a (description act))
                              (s\<lparr> tick := tick s + 1 \<rparr>)"
      have r: "snd (simulate_activity w cfg a s) = run_steps w a (commands act) s2"
        using Some False by (simp add: simulate_activity_def choice_def act_def s2_def)
      obtain evs where e: "trace (run_steps w a (commands act) s2) = trace s2 @ evs" "neutral evs"
        using run_steps_trace [of w a "commands act" s2] by blast
      have "trace s2 = trace s @ [Log INFO (Simulating_activity a (description act))]"
        by (simp add: s2_def logging_def emit_def)
      then show ?thesis
        using r e
        by (intro exI [of _ "Log INFO (Simulating_activity a (description act)) # evs"])
           (simp add: neutral_def)
    qed
  qed
qed

lemma simulate_activity_inv:
  "session_inv cfg s \<Longrightarrow> session_inv cfg (snd (simulate_activity w cfg a s))"
  using simulate_activity_effect(1,3) [of w cfg a s] inv_neutral_step by blast

lemma switch_app_inv:
  assumes "closable cfg" and "session_inv cfg s"
  shows "session_inv cfg (switch_app w cfg s)"
proof -
  define s1 where "s1 = close_current w cfg s"
  define p where "p = fst (randint w 30 120 s1)"
  define s3 where "s3 = sleep p (logging INFO (Pausing p) (snd (randint w 30 120 s1)))"
  define nxt where "nxt = fst (get_next_app w cfg s3)"
  define s4 where "s4 = snd (get_next_app w cfg s3)"
  have i1: "session_inv cfg s1" "current_app s1 = None"
    using close_current_inv [OF assms] by (simp_all add: s1_def)
  have i3: "session_inv cfg s3" "current_app s3 = None"
  proof -
    have "trace s3 = trace s1 @ [Log INFO (Pausing p), Sleep_for p]" "current_app s3 = current_app s1"
      by (simp_all add: s3_def sleep_def logging_def emit_def randint_def)
    then show "session_inv cfg s3" "current_app s3 = None"
      using i1 inv_neutral_step [of cfg s1 s3 "[Log INFO (Pausing p), Sleep_for p]"]
      by (simp_all add: neutral_def)
  qed
  have i4: "session_inv cfg s4" "current_app s4 = None"
    using i3 get_next_app_state [of w cfg s3]
    by (auto simp: s4_def session_inv_def)
  have sw: "switch_app w cfg s =
      (if truthy_app nxt
       then (case open_application w cfg nxt s4 of
               (True, s5) \<Rightarrow> (let (d, s6) = randint w 300 900 s5
                               in sleep 5 (s6\<lparr> session_duration := d \<rparr>))
             | (False, s5) \<Rightarrow> s5)
       else s4)"
    by (simp add: switch_app_def Let_def s1_def p_def s3_def nxt_def s4_def split: prod.splits)
  show ?thesis
  proof (cases "truthy_app nxt")
    case False
    then show ?thesis using sw i4 by simp
  next
    case True
    then obtain a where a: "nxt = Some a" "a \<noteq> []"
      by (auto simp: truthy_app_def split: option.splits)
    have mem: "a \<in> set (applications_used cfg)"
      using get_next_app_result [of w cfg s3] a by (auto simp: nxt_def)
    define s5 where "s5 = snd (open_application w cfg (Some a) s4)"
    have i5: "session_inv cfg s5"
      using open_application_inv [OF i4 a(2) mem] by (simp add: s5_def)
    show ?thesis
    proof (cases "fst (open_application w cfg (Some a) s4)")
      case False
      then have "switch_app w cfg s = s5"
        using sw True a by (simp add: s5_def split: prod.splits)
      then show ?thesis using i5 by simp
    next
      case ok: True
      define s7 where "s7 = sleep 5 ((snd (randint w 300 900 s5))\<lparr> session_duration := fst (randint w 300 900 s5) \<rparr>)"
      have "switch_app w cfg s = s7"
        using sw True a ok by (simp add: s5_def s7_def split: prod.splits)
      moreover have "trace s7 = trace s5 @ [Sleep_for 5]" "current_app s7 = current_app s5"
        by (simp_all add: s7_def sleep_def emit_def randint_def)
      ultimately show ?thesis
        using i5 inv_neutral_step [of cfg s5 s7 "[Sleep_for 5]"] by (simp add: neutral_def)
    qed
  qed
qed

lemma should_switch_app_state:
  "snd (should_switch_app w s) = s \<or> snd (should_switch_app w s) = s\<lparr> tick := tick s + 1 \<rparr>"
  by (simp add: should_switch_app_def split: option.splits)

lemma tick_update_inv [simp]: "session_inv cfg (s\<lparr> tick := n \<rparr>) = session_inv cfg s"
  by (simp add: session_inv_def)

lemma working_iteration_inv:
  assumes "closable cfg" and "session_inv cfg s"
  shows "session_inv cfg (snd (working_iteration w cfg s))"
proof -
  define s1 where "s1 = snd (should_switch_app w s)"
  define s2 where "s2 = (if fst (should_switch_app w s) then switch_app w cfg s1 else s1)"
  define r where "r = (if truthy_app (current_app s2)
               then simulate_activity w cfg (current_app s2) s2 else (None, s2))"
  have i1: "session_inv cfg s1"
    using assms(2) should_switch_app_state [of w s] by (auto simp: s1_def)
  have i2: "session_inv cfg s2"
    using i1 switch_app_inv [OF assms(1)] by (simp add: s2_def)
  have i3: "session_inv cfg (snd r)"
    using i2 simulate_activity_inv by (simp add: r_def)
  have w: "working_iteration w cfg s =
     (case r of (Some e, s3) \<Rightarrow> (Some e, s3)
       | (None, s3) \<Rightarrow> (let (activity_pause, s4) = randint w 10 60 s3
              in (None, sleep activity_pause s4)))"
    by (simp add: working_iteration_def s1_def s2_def r_def Let_def split: prod.splits)
  show ?thesis
  proof (cases "fst r")
    case None
    define s5 where "s5 = sleep (fst (randint w 10 60 (snd r))) (snd (randint w 10 60 (snd r)))"
    have "snd (working_iteration w cfg s) = s5"
      using w None by (simp add: s5_def split: prod.splits option.splits)
    moreover have "trace s5 = trace (snd r) @ [Sleep_for (fst (randint w 10 60 (snd r)))]"
      "current_app s5 = current_app (snd r)"
      by (simp_all add: s5_def sleep_def emit_def randint_def)
    ultimately show ?thesis
      using i3 inv_neutral_step [of cfg "snd r" s5] by (simp add: neutral_def)
  next
    case (Some e)
    then have "snd (working_iteration w cfg s) = snd r"
      using w by (simp split: prod.splits option.splits)
    then show ?thesis using i3 by simp
  qed
qed

lemma idle_branch_inv:
  assumes "closable cfg" and "session_inv cfg s"
  shows "session_inv cfg (sleep 300 (logging INFO m2
           (if truthy_app (current_app s)
            then close_application w cfg (current_app s) (logging INFO m1 s) else s)))"
proof -
  define s0 where "s0 = logging INFO m1 s"
  have i0: "session_inv cfg s0" "current_app s0 = current_app s"
    using assms(2) inv_neutral_step [of cfg s s0 "[Log INFO m1]"]
    by (simp_all add: s0_def logging_def emit_def neutral_def)
  define s1 where "s1 = (if truthy_app (current_app s)
            then close_application w cfg (current_app s) (logging INFO m1 s) else s)"
  have i1: "session_inv cfg s1"
  proof (cases "truthy_app (current_app s)")
    case True
    then have "s1 = close_current w cfg s0"
      using i0(2) by (simp add: s1_def close_current_def s0_def)
    then show ?thesis using close_current_inv [OF assms(1) i0(1)] by simp
  next
    case False
    then show ?thesis using assms(2) by (simp add: s1_def)
  qed
  have "trace (sleep 300 (logging INFO m2 s1)) = trace s1 @ [Log INFO m2, Sleep_for 300]"
    "current_app (sleep 300 (logging INFO m2 s1)) = current_app s1"
    by (simp_all add: sleep_def logging_def emit_def)
  then show ?thesis
    using i1 inv_neutral_step [of cfg s1 _ "[Log INFO m2, Sleep_for 300]"]
    by (simp add: neutral_def s1_def)
qed

lemma iteration_inv:
  assumes "closable cfg" and "session_inv cfg s"
  shows "session_inv cfg (snd (iteration w cfg s))"
proof -
  define s0 where "s0 = s\<lparr> tick := tick s + 1 \<rparr>"
  define now where "now = wall w (tick s)"
  have i0: "session_inv cfg s0" using assms(2) by (simp add: s0_def)
  have it: "iteration w cfg s =
     (case is_work_time now (work_sched cfg) of
           Inl e \<Rightarrow> (Some e, s0)
         | Inr False \<Rightarrow>
             (None, sleep 300 (logging INFO Outside_work_hours
                (if truthy_app (current_app s0)
                 then close_application w cfg (current_app s0) (logging INFO Work_time_ended s0)
                 else s0)))
         | Inr True \<Rightarrow>
             (case is_break_time now (work_sched cfg) of
                Inl e \<Rightarrow> (Some e, s0)
              | Inr True \<Rightarrow>
                  (None, sleep 300 (logging INFO Break_time_sleeping
                     (if truthy_app (current_app s0)
                      then close_application w cfg (current_app s0)
                             (logging INFO Break_time_closing s0)
                      else s0)))
              | Inr False \<Rightarrow> working_iteration w cfg s0))"
    unfolding iteration_def Let_def s0_def now_def ..
  note idle = idle_branch_inv [OF assms(1) i0]
  note work = working_iteration_inv [OF assms(1) i0]
  show ?thesis
  proof (cases "is_work_time now (work_sched cfg)")
    case (Inl e)
    then show ?thesis using it i0 by simp
  next
    case wt: (Inr b)
    show ?thesis
    proof (cases b)
      case False
      then have "snd (iteration w cfg s) = sleep 300 (logging INFO Outside_work_hours
                (if truthy_app (current_app s0)
                 then close_application w cfg (current_app s0) (logging INFO Work_time_ended s0)
                 else s0))"
        using it wt by simp
      then show ?thesis by (simp only: idle)
    next
      case True
      show ?thesis
      proof (cases "is_break_time now (work_sched cfg)")
        case (Inl e)
        then show ?thesis using it wt True i0 by simp
      next
        case bt: (Inr c)
        show ?thesis
        proof (cases c)
          case False
          then have "snd (iteration w cfg s) = snd (working_iteration w cfg s0)"
            using it wt True bt by simp
          then show ?thesis by (simp only: work)
        next
          case c: True
          then have "snd (iteration w cfg s) = sleep 300 (logging INFO Break_time_sleeping
                     (if truthy_app (current_app s0)
                      then close_application w cfg (current_app s0)
                             (logging INFO Break_time_closing s0)
                      else s0))"
            using it wt True bt by simp
          then show ?thesis by (simp only: idle)
        qed
      qed
    qed
  qed
qed

lemma run_loop_inv:
  assumes "closable cfg" and "session_inv cfg s"
  shows "session_inv cfg (snd (run_loop w cfg n s))"
  using assms(2)
proof (induction n arbitrary: s)
  case 0
  then show ?case by simp
next
  case (Suc n)
  have i: "session_inv cfg (snd (iteration w cfg s))"
    using iteration_inv [OF assms(1) Suc.prems] .
  show ?case
  proof (cases "iteration w cfg s")
    case (Pair r s')
    then show ?thesis using i Suc.IH [of s'] by (cases r) simp_all
  qed
qed

lemma agent_init_inv: "session_inv cfg (agent_init w)"
  by (simp add: agent_init_def randint_def session_inv_def)

lemma run_inv:
  assumes "closable cfg" and "session_inv cfg s"
  shows "session_inv cfg (snd (run w cfg n s))"
proof -
  let ?s = "logging INFO (Applications_are (applications_used cfg))
         (logging INFO (Schedule_is (work_sched cfg))
           (logging INFO (Role_is (role cfg))
             (logging INFO (Starting_agent (username cfg)) s)))"
  have "trace ?s = trace s @ [Log INFO (Starting_agent (username cfg)), Log INFO (Role_is (role cfg)),
      Log INFO (Schedule_is (work_sched cfg)), Log INFO (Applications_are (applications_used cfg))]"
    "current_app ?s = current_app s"
    by (simp_all add: logging_def emit_def)
  then have "session_inv cfg ?s"
    using assms(2) inv_neutral_step [of cfg s ?s] by (simp add: neutral_def)
  then show ?thesis
    unfolding run_def by (rule run_loop_inv [OF assms(1)])
qed

lemma handler_inv:
  assumes "closable cfg" and "session_inv cfg s"
  shows "session_inv cfg (close_current w cfg (logging l m s))"
proof -
  have "session_inv cfg (logging l m s)"
    using assms(2) inv_neutral_step [of cfg s "logging l m s" "[Log l m]"]
    by (simp add: logging_def emit_def neutral_def)
  then show ?thesis using close_current_inv [OF assms(1)] by blast
qed

text \<open>
  Claim C4. When every entry of the catalogue that has an open command has a close command
  (the built-in entries have both, so this is a condition on the custom entries): after any
  number of iterations of the loop, from the agent as constructed, no two open commands
  in the trace are without a close command between them, and \<open>current_app\<close> is \<^verbatim>\<open>None\<close>
  or one name of the configured list; the same holds of the trace when \<^verbatim>\<open>main\<close>'s
  handlers have run.
\<close>

theorem at_most_one_open_invariant:
  assumes "closable cfg"
  shows "at_most_one_open (trace (snd (run w cfg n (agent_init w))))
       \<and> (current_app (snd (run w cfg n (agent_init w))) = None
          \<or> (\<exists>a \<in> set (applications_used cfg).
                current_app (snd (run w cfg n (agent_init w))) = Some a))
       \<and> at_most_one_open (trace (main w cfg n))
       \<and> at_most_one_open (trace (main_interrupted w cfg n))"
proof -
  have i: "session_inv cfg (snd (run w cfg n (agent_init w)))"
    using run_inv [OF assms agent_init_inv] .
  have m: "session_inv cfg (main w cfg n)"
    using i handler_inv [OF assms]
    by (auto simp: main_def on_exception_def split: prod.splits option.splits)
  have mi: "session_inv cfg (main_interrupted w cfg n)"
    using i handler_inv [OF assms]
    by (auto simp: main_interrupted_def on_exception_def on_keyboard_interrupt_def
        split: prod.splits option.splits)
  have c: "current_app (snd (run w cfg n (agent_init w))) = None
          \<or> (\<exists>a \<in> set (applications_used cfg).
                current_app (snd (run w cfg n (agent_init w))) = Some a)"
    using i by (cases "current_app (snd (run w cfg n (agent_init w)))")
               (simp_all add: session_inv_def)
  show ?thesis
    using i m mi c by (simp add: session_inv_def at_most_one_open_def)
qed

theorem at_most_one_open_invariant_witness:
  "closable sample_config
   \<and> at_most_one_open (trace (snd (run (still_env 4 10 0) sample_config 3
                                      (agent_init (still_env 4 10 0)))))
   \<and> at_most_one_open (trace (main_interrupted (still_env 4 10 0) sample_config 3))"
proof -
  have c: "closable sample_config" by (simp add: closable_def sample_config_def)
  from at_most_one_open_invariant [OF c, of "still_env 4 10 0" 3] c
  show ?thesis by simp
qed

subsection \<open>Iterations outside working time\<close>

lemma new_events_append: "trace s' = trace s @ evs \<Longrightarrow> new_events s s' = evs"
  by (simp add: new_events_def)

lemma run_command_log:
  "\<exists>l m. trace (run_command w site app c s) = trace s @ [Executor site app c, Log l m]
         \<and> \<not> is_simulation (Log l m)"
  by (simp add: run_command_def emit_def logging_def Let_def split: proc_result.splits)

lemma close_application_quiet:
  "\<exists>evs. trace (close_application w cfg a s) = trace s @ evs \<and> quiet evs"
proof (cases "close_cmd (get_application_commands a (custom_commands cfg))")
  case None
  then show ?thesis by (simp add: close_application_def quiet_def)
next
  case (Some c)
  obtain l m where
    t: "trace (run_command w Close_call a c (logging INFO (Closing_application a) s))
        = trace (logging INFO (Closing_application a) s) @ [Executor Close_call a c, Log l m]"
    and q: "\<not> is_simulation (Log l m)"
    using run_command_log by blast
  show ?thesis
    using Some t q
    by (intro exI [of _ "[Log INFO (Closing_application a), Executor Close_call a c, Log l m]"])
       (simp add: close_application_def quiet_def logging_def emit_def)
qed

lemma idle_branch_trace:
  assumes "\<not> is_simulation (Log INFO m1)" and "\<not> is_simulation (Log INFO m2)"
  shows "\<exists>evs. trace (sleep 300 (logging INFO m2
           (if truthy_app (current_app s)
            then close_application w cfg (current_app s) (logging INFO m1 s) else s)))
          = trace s @ evs \<and> quiet evs \<and> evs \<noteq> [] \<and> last evs = Sleep_for 300"
proof (cases "truthy_app (current_app s)")
  case False
  then show ?thesis using assms by (simp add: sleep_def logging_def emit_def quiet_def)
next
  case True
  obtain evs where e: "trace (close_application w cfg (current_app s) (logging INFO m1 s))
      = trace (logging INFO m1 s) @ evs" "quiet evs"
    using close_application_quiet by blast
  show ?thesis
    using True e assms
    by (intro exI [of _ "Log INFO m1 # evs @ [Log INFO m2, Sleep_for 300]"])
       (simp add: sleep_def logging_def emit_def quiet_def)
qed

lemma quiet_executor_calls:
  "quiet evs \<Longrightarrow> list_all (\<lambda>x. fst x = Close_call) (executor_calls evs)"
proof (induction evs rule: executor_calls.induct)
  case (2 site a c es)
  then show ?case by (cases site) (simp_all add: quiet_def)
qed (simp_all add: quiet_def)

text \<open>
  Claim C1. In an iteration whose schedule classification is not \<open>WORKING\<close> (it is
  \<open>OFF_HOURS\<close> or \<open>ON_BREAK\<close>, or a schedule test raised), the events of the iteration
  hold no choice of an activity script, no executor call for a script's step and no open
  command; so these can only occur in an iteration classified \<open>WORKING\<close>. The only
  executor call such an iteration can make is the close command of the current application.
  When the classification is \<open>OFF_HOURS\<close> or \<open>ON_BREAK\<close> the iteration ends normally
  with the sleep of 300 seconds.
\<close>

theorem no_activity_outside_working_time:
  assumes "classify (wall w (tick s)) (work_sched cfg) \<noteq> Inr WORKING"
  shows "trace (snd (iteration w cfg s)) = trace s @ new_events s (snd (iteration w cfg s))
       \<and> \<not> list_ex is_simulation (new_events s (snd (iteration w cfg s)))
       \<and> \<not> list_ex is_open_call (new_events s (snd (iteration w cfg s)))
       \<and> list_all (\<lambda>x. fst x = Close_call)
            (executor_calls (new_events s (snd (iteration w cfg s))))
       \<and> (classify (wall w (tick s)) (work_sched cfg) = Inr OFF_HOURS
            \<or> classify (wall w (tick s)) (work_sched cfg) = Inr ON_BREAK
          \<longrightarrow> fst (iteration w cfg s) = None
              \<and> last (trace (snd (iteration w cfg s))) = Sleep_for 300)"
proof -
  define s0 where "s0 = s\<lparr> tick := tick s + 1 \<rparr>"
  define now where "now = wall w (tick s)"
  have t0: "trace s0 = trace s" by (simp add: s0_def)
  have it: "iteration w cfg s =
     (case is_work_time now (work_sched cfg) of
           Inl e \<Rightarrow> (Some e, s0)
         | Inr False \<Rightarrow>
             (None, sleep 300 (logging INFO Outside_work_hours
                (if truthy_app (current_app s0)
                 then close_application w cfg (current_app s0) (logging INFO Work_time_ended s0)
                 else s0)))
         | Inr True \<Rightarrow>
             (case is_break_time now (work_sched cfg) of
                Inl e \<Rightarrow> (Some e, s0)
              | Inr True \<Rightarrow>
                  (None, sleep 300 (logging INFO Break_time_sleeping
                     (if truthy_app (current_app s0)
                      then close_application w cfg (current_app s0)
                             (logging INFO Break_time_closing s0)
                      else s0)))
              | Inr False \<Rightarrow> working_iteration w cfg s0))"
    unfolding iteration_def Let_def s0_def now_def ..
  have cl: "classify now (work_sched cfg) \<noteq> Inr WORKING" using assms by (simp add: now_def)
  have idle: "?thesis"
    if r: "iteration w cfg s = (None, sleep 300 (logging INFO m2
           (if truthy_app (current_app s0)
            then close_application w cfg (current_app s0) (logging INFO m1 s0) else s0)))"
      and m: "\<not> is_simulation (Log INFO m1)" "\<not> is_simulation (Log INFO m2)"
    for m1 m2
  proof -
    obtain evs where e: "trace (snd (iteration w cfg s)) = trace s @ evs" "quiet evs"
      "evs \<noteq> []" "last evs = Sleep_for 300"
      using idle_branch_trace [OF m, of s0 w cfg] r t0 by auto
    have n: "new_events s (snd (iteration w cfg s)) = evs"
      using new_events_append [OF e(1)] .
    have f: "fst (iteration w cfg s) = None" using r by simp
    have l: "last (trace (snd (iteration w cfg s))) = Sleep_for 300" using e by simp
    have q: "\<not> list_ex is_simulation evs" "\<not> list_ex is_open_call evs"
      using e(2) by (simp_all add: quiet_def list_ex_iff list_all_iff)
    have x: "list_all (\<lambda>x. fst x = Close_call) (executor_calls evs)"
      using quiet_executor_calls [OF e(2)] .
    show ?thesis
      unfolding n using e(1) f l q x by blast
  qed
  have err: "?thesis" if r: "iteration w cfg s = (Some e, s0)"
    and c: "classify now (work_sched cfg) = Inl e" for e
    using r c t0 by (simp add: new_events_def now_def)
  show ?thesis
  proof (cases "is_work_time now (work_sched cfg)")
    case (Inl e)
    then show ?thesis using it err [of e] by (simp add: classify_def)
  next
    case wt: (Inr b)
    show ?thesis
    proof (cases b)
      case False
      then have "iteration w cfg s = (None, sleep 300 (logging INFO Outside_work_hours
                (if truthy_app (current_app s0)
                 then close_application w cfg (current_app s0) (logging INFO Work_time_ended s0)
                 else s0)))"
        using it wt by simp
      then show ?thesis by (rule idle) simp_all
    next
      case True
      show ?thesis
      proof (cases "is_break_time now (work_sched cfg)")
        case (Inl e)
        then show ?thesis using it wt True err [of e] by (simp add: classify_def)
      next
        case bt: (Inr c)
        show ?thesis
        proof (cases c)
          case False
          then show ?thesis using cl wt True bt by (simp add: classify_def)
        next
          case c: True
          then have "iteration w cfg s = (None, sleep 300 (logging INFO Break_time_sleeping
                     (if truthy_app (current_app s0)
                      then close_application w cfg (current_app s0)
                             (logging INFO Break_time_closing s0)
                      else s0)))"
            using it wt True bt by simp
          then show ?thesis by (rule idle) simp_all
        qed
      qed
    qed
  qed
qed

subsection \<open>Choosing the next application\<close>

text \<open>
  Claim C5, as the code has it. When the configured list has an entry other than the
  current application, \<open>get_next_app\<close> returns an entry of the list that is not the
  current application, whatever the random number; with the list \<open>[A, B]\<close> and the
  current application \<open>A\<close> it returns \<open>B\<close>; with a list of one entry it returns that
  entry, also when it is the current application; and with a non-empty list whose entries
  are all the current application (one entry, or one name repeated) it returns the current
  application. A list with two different entries always has an entry other than the current
  application.
\<close>

theorem get_next_app_excludes_current:
  "(list_ex (\<lambda>b. Some b \<noteq> current_app s) (applications_used cfg) \<longrightarrow>
       fst (get_next_app w cfg s) \<noteq> current_app s
       \<and> fst (get_next_app w cfg s) \<in> Some ` set (applications_used cfg))
   \<and> (applications_used cfg = [''A'', ''B''] \<and> current_app s = Some ''A'' \<longrightarrow>
       fst (get_next_app w cfg s) = Some ''B'')
   \<and> (applications_used cfg = [a] \<longrightarrow> fst (get_next_app w cfg s) = Some a)
   \<and> (applications_used cfg \<noteq> [] \<and> list_all (\<lambda>b. Some b = current_app s) (applications_used cfg)
        \<longrightarrow> fst (get_next_app w cfg s) = current_app s)
   \<and> (list_ex (\<lambda>a. list_ex (\<lambda>b. a \<noteq> b) (applications_used cfg)) (applications_used cfg)
        \<longrightarrow> fst (get_next_app w cfg s) \<noteq> current_app s)"
proof -
  let ?av = "filter (\<lambda>app. Some app \<noteq> current_app s) (applications_used cfg)"
  have a: "fst (get_next_app w cfg s) \<noteq> current_app s
       \<and> fst (get_next_app w cfg s) \<in> Some ` set (applications_used cfg)"
    if "list_ex (\<lambda>b. Some b \<noteq> current_app s) (applications_used cfg)"
  proof -
    have ne: "?av \<noteq> []" using that by (auto simp: list_ex_iff filter_empty_conv)
    then have apps: "applications_used cfg \<noteq> []" by auto
    have "?av ! (rnd w (tick s) mod length ?av) \<in> set ?av"
      using ne by (intro nth_mem) simp
    then have "Some (?av ! (rnd w (tick s) mod length ?av)) \<noteq> current_app s"
      "?av ! (rnd w (tick s) mod length ?av) \<in> set (applications_used cfg)"
      by simp_all
    moreover have "fst (get_next_app w cfg s) = Some (?av ! (rnd w (tick s) mod length ?av))"
      using ne apps by (simp add: get_next_app_def Let_def)
    ultimately show ?thesis by simp
  qed
  have b: "fst (get_next_app w cfg s) = Some ''B''"
    if "applications_used cfg = [''A'', ''B'']" "current_app s = Some ''A''"
    using that by (simp add: get_next_app_def Let_def)
  have c: "fst (get_next_app w cfg s) = Some a" if "applications_used cfg = [a]"
    using that by (simp add: get_next_app_def Let_def)
  have d: "fst (get_next_app w cfg s) = current_app s"
    if ne: "applications_used cfg \<noteq> []"
      and all: "list_all (\<lambda>b. Some b = current_app s) (applications_used cfg)"
  proof -
    let ?apps = "applications_used cfg"
    have e: "?av = []" using all by (auto simp: list_all_iff filter_empty_conv)
    have "?apps ! (rnd w (tick s) mod length ?apps) \<in> set ?apps"
      using ne by (intro nth_mem) simp
    then have "Some (?apps ! (rnd w (tick s) mod length ?apps)) = current_app s"
      using all by (simp add: list_all_iff)
    moreover have "fst (get_next_app w cfg s) = Some (?apps ! (rnd w (tick s) mod length ?apps))"
      using ne e by (simp add: get_next_app_def Let_def)
    ultimately show ?thesis by simp
  qed
  have e: "fst (get_next_app w cfg s) \<noteq> current_app s"
    if "list_ex (\<lambda>a. list_ex (\<lambda>b. a \<noteq> b) (applications_used cfg)) (applications_used cfg)"
  proof -
    from that obtain x y where "x \<in> set (applications_used cfg)"
      "y \<in> set (applications_used cfg)" "x \<noteq> y"
      by (auto simp: list_ex_iff)
    then have "\<exists>b \<in> set (applications_used cfg). Some b \<noteq> current_app s"
      by (metis option.inject)
    then have "list_ex (\<lambda>b. Some b \<noteq> current_app s) (applications_used cfg)"
      by (simp add: list_ex_iff)
    then show ?thesis using a by blast
  qed
  show ?thesis using a b c d e by blast
qed

subsection \<open>Best-effort activities\<close>

text \<open>
  Claim C6. Whatever the executor answers to each command (success, another exit status, an
  exception), the steps of an activity script all go to the executor, in the script's order:
  the executor calls of the loop over a script are the script's commands, as many as the
  script has steps; and \<open>simulate_activity\<close>, for an application with a non-empty list
  of activities, raises nothing and makes exactly the executor calls of the chosen script.
\<close>

theorem simulate_activity_best_effort:
  "executor_calls (new_events s (run_steps w app cmds s)) = map (\<lambda>c. (Step_call, app, c)) cmds
   \<and> length (executor_calls (new_events s (run_steps w app cmds s))) = length cmds
   \<and> (activities (get_application_commands app (custom_commands cfg)) = Some acts \<and> acts \<noteq> []
      \<longrightarrow> fst (simulate_activity w cfg app s) = None
          \<and> executor_calls (new_events s (snd (simulate_activity w cfg app s)))
              = map (\<lambda>c. (Step_call, app, c)) (commands (acts ! (rnd w (tick s) mod length acts))))"
proof -
  have steps: "executor_calls (new_events s' (run_steps w app cs s')) = map (\<lambda>c. (Step_call, app, c)) cs"
    for s' cs
    using run_steps_trace [of w app cs s'] by (auto simp: new_events_def)
  have sim: "fst (simulate_activity w cfg app s) = None
          \<and> executor_calls (new_events s (snd (simulate_activity w cfg app s)))
              = map (\<lambda>c. (Step_call, app, c)) (commands (acts ! (rnd w (tick s) mod length acts)))"
    if a: "activities (get_application_commands app (custom_commands cfg)) = Some acts" "acts \<noteq> []"
  proof -
    define act where "act = acts ! (rnd w (tick s) mod length acts)"
    define s2 where "s2 = logging INFO (Simulating_activity app (description act))
                              (s\<lparr> tick := tick s + 1 \<rparr>)"
    have r: "simulate_activity w cfg app s = (None, run_steps w app (commands act) s2)"
      using a by (simp add: simulate_activity_def choice_def act_def s2_def)
    obtain evs where e: "trace (run_steps w app (commands act) s2) = trace s2 @ evs"
      "executor_calls evs = map (\<lambda>c. (Step_call, app, c)) (commands act)"
      using run_steps_trace [of w app "commands act" s2] by blast
    have t2: "trace s2 = trace s @ [Log INFO (Simulating_activity app (description act))]"
      by (simp add: s2_def logging_def emit_def)
    have "new_events s (run_steps w app (commands act) s2)
          = Log INFO (Simulating_activity app (description act)) # evs"
      using e(1) t2 by (simp add: new_events_def)
    then show ?thesis using r e(2) by (simp add: act_def)
  qed
  show ?thesis using steps [of s cmds] sim by simp
qed

subsection \<open>Closing when nothing is open\<close>

text \<open>
  Claim C7, as the code has it. The guarded close of the loop and of \<^verbatim>\<open>main\<close> is idempotent,
  and on the empty session it does nothing: when \<open>current_app\<close> is \<^verbatim>\<open>None\<close> it leaves the
  agent as it is, and \<open>close_application\<close> called on \<open>current_app\<close> adds nothing to the
  trace (no executor call, no log record), leaves \<open>current_app\<close> at \<^verbatim>\<open>None\<close> and, with
  \<open>app_start_time\<close> at \<^verbatim>\<open>None\<close> as well, leaves the whole agent as it is. The method
  \<open>close_application\<close> itself does not look at \<open>current_app\<close>: on the empty session it
  leaves both session fields at \<^verbatim>\<open>None\<close> whatever its argument is, it changes nothing when
  the catalogue has no close command for the argument, and it makes exactly one executor
  call, the close command of the argument, when the catalogue has one.
\<close>

theorem close_on_empty_session:
  "close_current w cfg (close_current w cfg s) = close_current w cfg s
   \<and> (current_app s = None \<longrightarrow>
        close_current w cfg s = s
        \<and> trace (close_application w cfg (current_app s) s) = trace s
        \<and> current_app (close_application w cfg (current_app s) s) = None
        \<and> (app_start_time s = None \<longrightarrow> close_application w cfg (current_app s) s = s))
   \<and> (current_app s = None \<and> app_start_time s = None \<longrightarrow>
        current_app (close_application w cfg a s) = None
        \<and> app_start_time (close_application w cfg a s) = None
        \<and> (close_cmd (get_application_commands a (custom_commands cfg)) = None \<longrightarrow>
             close_application w cfg a s = s)
        \<and> (close_cmd (get_application_commands a (custom_commands cfg)) = Some c \<longrightarrow>
             executor_calls (new_events s (close_application w cfg a s)) = [(Close_call, a, c)]))"
proof -
  have idem: "close_current w cfg (close_current w cfg s) = close_current w cfg s"
    by (simp add: close_current_def close_application_effect truthy_app_def)
  have none: "close_application w cfg None s = s\<lparr> current_app := None, app_start_time := None \<rparr>"
    by (simp add: close_application_def empty_profile_def)
  have miss: "close_application w cfg a s = s"
    if "current_app s = None" "app_start_time s = None"
      "close_cmd (get_application_commands a (custom_commands cfg)) = None"
    using that by (simp add: close_application_def)
  have hit: "executor_calls (new_events s (close_application w cfg a s)) = [(Close_call, a, c)]"
    if "close_cmd (get_application_commands a (custom_commands cfg)) = Some c"
    using close_application_trace(1) [OF that, of w s] by (auto simp: new_events_def)
  show ?thesis
    using idem none miss hit
    by (auto simp: close_current_def truthy_app_def close_application_effect)
qed

subsection \<open>Coherence\<close>

lemma coherent_frame:
  "current_app s' = current_app s \<Longrightarrow> app_start_time s' = app_start_time s \<Longrightarrow>
   coherent s' = coherent s"
  by (simp add: coherent_def)

lemma coherent_emit [simp]:
  "coherent (emit e s) = coherent s"
  "coherent (logging l m s) = coherent s"
  "coherent (sleep n s) = coherent s"
  "coherent (sleep_uniform s) = coherent s"
  "coherent (s\<lparr> tick := k \<rparr>) = coherent s"
  "coherent (s\<lparr> session_duration := d \<rparr>) = coherent s"
  "coherent (snd (randint w a b s)) = coherent s"
  by (simp_all add: coherent_def emit_def logging_def sleep_def sleep_uniform_def randint_def)

lemma close_application_coherent: "coherent (close_application w cfg a s)"
  by (simp add: coherent_def close_application_effect)

lemma close_current_coherent: "coherent s \<Longrightarrow> coherent (close_current w cfg s)"
  by (simp add: close_current_def close_application_coherent)

lemma open_application_coherent:
  assumes "coherent s"
  shows "coherent (snd (open_application w cfg a s))"
proof (cases "open_cmd (get_application_commands a (custom_commands cfg))")
  case None
  then show ?thesis using assms by (simp add: open_application_miss)
next
  case (Some c)
  then have "a \<noteq> None" by (cases a) (simp_all add: empty_profile_def)
  then show ?thesis
    using open_application_effect(2,3) [OF Some, of w s] by (auto simp: coherent_def)
qed

lemma simulate_activity_coherent:
  "coherent (snd (simulate_activity w cfg a s)) = coherent s"
  by (rule coherent_frame) (rule simulate_activity_effect)+

lemma get_next_app_coherent: "coherent (snd (get_next_app w cfg s)) = coherent s"
  using get_next_app_state [of w cfg s] by auto

lemma should_switch_app_coherent: "coherent (snd (should_switch_app w s)) = coherent s"
  using should_switch_app_state [of w s] by auto

lemma switch_app_coherent:
  assumes "coherent s"
  shows "coherent (switch_app w cfg s)"
proof -
  define s1 where "s1 = close_current w cfg s"
  define p where "p = fst (randint w 30 120 s1)"
  define s3 where "s3 = sleep p (logging INFO (Pausing p) (snd (randint w 30 120 s1)))"
  define nxt where "nxt = fst (get_next_app w cfg s3)"
  define s4 where "s4 = snd (get_next_app w cfg s3)"
  define s5 where "s5 = snd (open_application w cfg nxt s4)"
  have c4: "coherent s4"
    using close_current_coherent [OF assms, of w cfg]
    by (simp add: s4_def s3_def s1_def get_next_app_coherent)
  have c5: "coherent s5" using open_application_coherent [OF c4] by (simp add: s5_def)
  have sw: "switch_app w cfg s =
      (if truthy_app nxt
       then (if fst (open_application w cfg nxt s4)
             then sleep 5 ((snd (randint w 300 900 s5))\<lparr> session_duration := fst (randint w 300 900 s5) \<rparr>)
             else s5)
       else s4)"
    by (simp add: switch_app_def Let_def s1_def p_def s3_def nxt_def s4_def s5_def
        split: prod.splits)
  show ?thesis using c4 c5 by (simp add: sw)
qed

lemma working_iteration_coherent:
  assumes "coherent s"
  shows "coherent (snd (working_iteration w cfg s))"
proof -
  define s1 where "s1 = snd (should_switch_app w s)"
  define s2 where "s2 = (if fst (should_switch_app w s) then switch_app w cfg s1 else s1)"
  define r where "r = (if truthy_app (current_app s2)
               then simulate_activity w cfg (current_app s2) s2 else (None, s2))"
  have c1: "coherent s1" using assms by (simp add: s1_def should_switch_app_coherent)
  have c2: "coherent s2" using c1 switch_app_coherent by (simp add: s2_def)
  have c3: "coherent (snd r)" using c2 by (simp add: r_def simulate_activity_coherent)
  have w: "snd (working_iteration w cfg s) =
     (case fst r of Some e \<Rightarrow> snd r
       | None \<Rightarrow> sleep (fst (randint w 10 60 (snd r))) (snd (randint w 10 60 (snd r))))"
    by (simp add: working_iteration_def s1_def s2_def r_def Let_def case_prod_beta
        split: option.splits)
  show ?thesis
    using c3 by (cases "fst r") (simp_all add: w)
qed

lemma iteration_coherent:
  assumes "coherent s"
  shows "coherent (snd (iteration w cfg s))"
  using assms working_iteration_coherent [of "s\<lparr> tick := tick s + 1 \<rparr>" w cfg]
  by (simp add: iteration_def Let_def close_application_coherent
      split: sum.splits bool.splits)

lemma run_loop_coherent:
  "coherent s \<Longrightarrow> coherent (snd (run_loop w cfg n s))"
proof (induction n arbitrary: s)
  case 0
  then show ?case by simp
next
  case (Suc n)
  have i: "coherent (snd (iteration w cfg s))" using iteration_coherent [OF Suc.prems] .
  show ?case
  proof (cases "iteration w cfg s")
    case (Pair r s')
    then show ?thesis using i Suc.IH [of s'] by (cases r) simp_all
  qed
qed

lemma run_coherent: "coherent s \<Longrightarrow> coherent (snd (run w cfg n s))"
  unfolding run_def by (rule run_loop_coherent) simp

lemma agent_init_coherent: "coherent (agent_init w)"
  by (simp add: agent_init_def randint_def coherent_def)

text \<open>
  Claim C10. \<open>current_app\<close> is \<^verbatim>\<open>None\<close> exactly when \<open>app_start_time\<close> is: this holds of
  the agent as constructed, \<open>open_application\<close> and an iteration of the loop keep it,
  \<open>close_application\<close> establishes it, and it holds after any number of iterations and
  after \<^verbatim>\<open>main\<close>'s handlers.
\<close>

theorem session_coherence:
  "coherent (agent_init w)
   \<and> (coherent s \<longrightarrow> coherent (snd (open_application w cfg a s)))
   \<and> coherent (close_application w cfg a s)
   \<and> (coherent s \<longrightarrow> coherent (snd (iteration w cfg s)))
   \<and> coherent (snd (run w cfg n (agent_init w)))
   \<and> coherent (main w cfg n)
   \<and> coherent (main_interrupted w cfg n)"
proof -
  have r: "coherent (snd (run w cfg n (agent_init w)))"
    using run_coherent [OF agent_init_coherent] .
  have m: "coherent (main w cfg n)"
    using r by (auto simp: main_def on_exception_def intro: close_current_coherent
        split: prod.splits option.splits)
  have mi: "coherent (main_interrupted w cfg n)"
    using r by (auto simp: main_interrupted_def on_exception_def on_keyboard_interrupt_def
        intro: close_current_coherent split: prod.splits option.splits)
  show ?thesis
    using agent_init_coherent open_application_coherent close_application_coherent
      iteration_coherent r m mi by blast
qed

subsection \<open>Names that are not in the catalogue\<close>

text \<open>
  Claim C8, as the code has it. A custom entry comes before the built-in one. For a name
  that is in neither dictionary (or for \<^verbatim>\<open>None\<close>) the lookup gives the empty dictionary;
  \<open>open_application\<close> returns \<^verbatim>\<open>False\<close> and \<open>simulate_activity\<close> returns, both with
  the agent as it was: no executor call, no log record, no exception;
  \<open>close_application\<close> makes no executor call and writes no log record either, and
  clears the session.
\<close>

theorem lookup_miss_is_silent:
  "(map_of (custom_commands cfg) n = Some p \<longrightarrow>
      get_application_commands (Some n) (custom_commands cfg) = p)
   \<and> (lookup_miss cfg a \<longrightarrow>
        get_application_commands a (custom_commands cfg) = empty_profile
        \<and> open_application w cfg a s = (False, s)
        \<and> simulate_activity w cfg a s = (None, s)
        \<and> close_application w cfg a s = s\<lparr> current_app := None, app_start_time := None \<rparr>)"
proof -
  have m: "get_application_commands a (custom_commands cfg) = empty_profile" if "lookup_miss cfg a"
    using that by (cases a) (simp_all add: lookup_miss_def get_application_commands_def)
  show ?thesis
    using m
    by (auto simp: get_application_commands_def open_application_def simulate_activity_def
        close_application_def empty_profile_def)
qed

subsection \<open>Shutdown\<close>


section \<open>The properties at concrete inputs\<close>

subsection \<open>Evaluating the examples\<close>

lemma still_env_simps:
  "proc (still_env r h m) n c = Completed 0 []"
  "rnd (still_env r h m) n = r"
  "clock (still_env r h m) n = 1000 + real n"
  "wall (still_env r h m) n = instant 739558 h m"
  by (simp_all add: still_env_def)

lemma failing_env_simps:
  "proc failing_env n c = Completed 1 ''failed''"
  "rnd failing_env n = 0"
  by (simp_all add: failing_env_def still_env_def)


lemma default_schedule_at_1330:
  "classify (instant 739558 13 30) default_schedule = Inr ON_BREAK"
  by (simp add: classify_def is_work_time_def is_break_time_def strptime_default_times
      default_schedule_def instant_def time_le_def break_end_def time_us_def us_time_def day_us_def)

lemma slack_profile:
  "get_application_commands (Some ''Slack'') [] =
     \<lparr> open_cmd = Some ''slack'', close_cmd = Some ''pkill -f slack'',
       activities = Some
         [\<lparr> description = ''Checking messages'',
            commands = [''xdotool key ctrl+k'', ''sleep 1'', ''xdotool type '' @ sq ''general'',
                        ''xdotool key Return''] \<rparr>,
          \<lparr> description = ''Typing message'',
            commands = [''xdotool type '' @ sq ''Good morning team!'', ''xdotool key Return''] \<rparr>] \<rparr>"
  by (simp add: get_application_commands_def app_configs_def)


lemma notepad_miss: "lookup_miss default_config (Some ''Notepad'')"
  by (simp add: lookup_miss_def default_config_def app_configs_def)

subsection \<open>Instances\<close>

text \<open>
  At 13:30, in the break of the default schedule, an iteration that starts with Slack open
  simulates nothing and ends normally.
\<close>

theorem no_activity_outside_working_time_witness:
  "classify (wall (still_env 0 13 30) (tick (session_with ''Slack''))) (work_sched default_config)
     \<noteq> Inr WORKING
   \<and> \<not> list_ex is_simulation
        (new_events (session_with ''Slack'')
           (snd (iteration (still_env 0 13 30) default_config (session_with ''Slack''))))
   \<and> fst (iteration (still_env 0 13 30) default_config (session_with ''Slack'')) = None"
proof -
  have h: "classify (wall (still_env 0 13 30) (tick (session_with ''Slack'')))
             (work_sched default_config) = Inr ON_BREAK"
    by (simp add: still_env_simps default_config_def default_schedule_at_1330)
  then have h': "classify (wall (still_env 0 13 30) (tick (session_with ''Slack'')))
             (work_sched default_config) \<noteq> Inr WORKING" by simp
  from no_activity_outside_working_time [OF h'] h h' show ?thesis by simp
qed

text \<open>
  With the list \<open>[A, B]\<close> and the current application \<open>A\<close> the next application is
  \<open>B\<close>; with the list \<open>[A]\<close> it is \<open>A\<close> again.
\<close>

theorem get_next_app_excludes_current_witness:
  "list_ex (\<lambda>b. Some b \<noteq> current_app (session_with ''A''))
      (applications_used (config_with_apps [''A'', ''B'']))
   \<and> list_ex (\<lambda>a. list_ex (\<lambda>b. a \<noteq> b) (applications_used (config_with_apps [''A'', ''B''])))
        (applications_used (config_with_apps [''A'', ''B'']))
   \<and> fst (get_next_app (still_env 7 10 0) (config_with_apps [''A'', ''B'']) (session_with ''A''))
       = Some ''B''
   \<and> applications_used (config_with_apps [''A'']) \<noteq> []
   \<and> list_all (\<lambda>b. Some b = current_app (session_with ''A''))
        (applications_used (config_with_apps [''A'']))
   \<and> fst (get_next_app (still_env 7 10 0) (config_with_apps [''A'']) (session_with ''A''))
       = Some ''A''"
proof -
  have a: "applications_used (config_with_apps [''A'', ''B'']) = [''A'', ''B'']"
    "applications_used (config_with_apps [''A'']) = [''A'']"
    "current_app (session_with ''A'') = Some ''A''"
    by (simp_all add: config_with_apps_def session_with_def)
  from get_next_app_excludes_current
         [where s = "session_with ''A''" and cfg = "config_with_apps [''A'', ''B'']"
            and w = "still_env 7 10 0"]
       get_next_app_excludes_current
         [where s = "session_with ''A''" and cfg = "config_with_apps [''A'']"
            and w = "still_env 7 10 0" and a = "''A''"]
       a
  show ?thesis by simp
qed

text \<open>
  In a world where every command fails, the four steps of Slack's first activity script all
  go to the executor.
\<close>

theorem simulate_activity_best_effort_witness:
  "activities (get_application_commands (Some ''Slack'') (custom_commands default_config))
     \<noteq> Some []
   \<and> fst (simulate_activity failing_env default_config (Some ''Slack'') (session_with ''Slack''))
       = None
   \<and> executor_calls (new_events (session_with ''Slack'')
        (snd (simulate_activity failing_env default_config (Some ''Slack'') (session_with ''Slack''))))
      = [(Step_call, Some ''Slack'', ''xdotool key ctrl+k''),
         (Step_call, Some ''Slack'', ''sleep 1''),
         (Step_call, Some ''Slack'', ''xdotool type '' @ sq ''general''),
         (Step_call, Some ''Slack'', ''xdotool key Return'')]"
proof -
  let ?acts = "[\<lparr> description = ''Checking messages'',
            commands = [''xdotool key ctrl+k'', ''sleep 1'', ''xdotool type '' @ sq ''general'',
                        ''xdotool key Return''] \<rparr>,
          \<lparr> description = ''Typing message'',
            commands = [''xdotool type '' @ sq ''Good morning team!'', ''xdotool key Return''] \<rparr>]"
  have c: "custom_commands default_config = []" by (simp add: default_config_def)
  have a: "activities (get_application_commands (Some ''Slack'') (custom_commands default_config))
      = Some ?acts"
    by (simp add: c slack_profile)
  have b: "?acts \<noteq> []" by simp
  from simulate_activity_best_effort
         [where s = "session_with ''Slack''" and w = failing_env and app = "Some ''Slack''"
            and cmds = "[]" and cfg = default_config and acts = ?acts] a b
  have "fst (simulate_activity failing_env default_config (Some ''Slack'') (session_with ''Slack''))
       = None
   \<and> executor_calls (new_events (session_with ''Slack'')
        (snd (simulate_activity failing_env default_config (Some ''Slack'') (session_with ''Slack''))))
      = map (\<lambda>c. (Step_call, Some ''Slack'', c))
          (commands (?acts ! (rnd failing_env (tick (session_with ''Slack'')) mod length ?acts)))"
    by blast
  then show ?thesis using a by (simp add: failing_env_simps)
qed

text \<open>
  On the agent as constructed, closing the current application, and closing Notepad, which
  is not in the catalogue, change nothing; closing Slack makes one executor call.
\<close>

theorem close_on_empty_session_witness:
  "current_app (agent_init (still_env 0 10 0)) = None
   \<and> app_start_time (agent_init (still_env 0 10 0)) = None
   \<and> close_current (still_env 0 10 0) default_config (agent_init (still_env 0 10 0))
       = agent_init (still_env 0 10 0)
   \<and> close_application (still_env 0 10 0) default_config None (agent_init (still_env 0 10 0))
       = agent_init (still_env 0 10 0)
   \<and> close_cmd (get_application_commands (Some ''Notepad'') (custom_commands default_config)) = None
   \<and> close_application (still_env 0 10 0) default_config (Some ''Notepad'')
        (agent_init (still_env 0 10 0))
       = agent_init (still_env 0 10 0)
   \<and> close_cmd (get_application_commands (Some ''Slack'') (custom_commands default_config))
       = Some ''pkill -f slack''
   \<and> length (executor_calls (new_events (agent_init (still_env 0 10 0))
        (close_application (still_env 0 10 0) default_config (Some ''Slack'')
           (agent_init (still_env 0 10 0))))) = 1"
proof -
  have n: "current_app (agent_init (still_env 0 10 0)) = None"
    "app_start_time (agent_init (still_env 0 10 0)) = None"
    by (simp_all add: agent_init_def randint_def)
  have m: "close_cmd (get_application_commands (Some ''Notepad'') (custom_commands default_config))
           = None"
    by (simp add: get_application_commands_def default_config_def app_configs_def
        empty_profile_def)
  have h: "close_cmd (get_application_commands (Some ''Slack'') (custom_commands default_config))
       = Some ''pkill -f slack''"
    by (simp add: default_config_def slack_profile)
  from close_on_empty_session
         [where w = "still_env 0 10 0" and cfg = default_config
            and s = "agent_init (still_env 0 10 0)" and a = "Some ''Notepad''"] n m
  have x: "close_current (still_env 0 10 0) default_config (agent_init (still_env 0 10 0))
       = agent_init (still_env 0 10 0)
   \<and> close_application (still_env 0 10 0) default_config None (agent_init (still_env 0 10 0))
       = agent_init (still_env 0 10 0)
   \<and> close_application (still_env 0 10 0) default_config (Some ''Notepad'')
        (agent_init (still_env 0 10 0))
       = agent_init (still_env 0 10 0)"
    by simp
  from close_on_empty_session
         [where w = "still_env 0 10 0" and cfg = default_config
            and s = "agent_init (still_env 0 10 0)" and a = "Some ''Slack''"
            and c = "''pkill -f slack''"] n h
  have y: "executor_calls (new_events (agent_init (still_env 0 10 0))
        (close_application (still_env 0 10 0) default_config (Some ''Slack'')
           (agent_init (still_env 0 10 0))))
      = [(Close_call, Some ''Slack'', ''pkill -f slack'')]"
    by simp
  show ?thesis using n m h x y by simp
qed

text \<open>Opening an application and running an iteration keep a coherent session coherent.\<close>

theorem session_coherence_witness:
  "coherent (session_with ''Slack'')
   \<and> coherent (snd (open_application (still_env 0 10 0) default_config (Some ''Slack'')
                     (session_with ''Slack'')))
   \<and> coherent (snd (iteration (still_env 0 10 0) default_config (session_with ''Slack'')))"
proof -
  have c: "coherent (session_with ''Slack'')" by (simp add: coherent_def session_with_def)
  from session_coherence [of "still_env 0 10 0" "session_with ''Slack''" default_config
         "Some ''Slack''" 0] c
  show ?thesis by simp
qed

text \<open>
  The sample configuration's custom entry for the terminal is the one the lookup returns;
  the name Notepad is in neither dictionary, and opening it or simulating in it changes
  nothing.
\<close>

theorem lookup_miss_is_silent_witness:
  "map_of (custom_commands sample_config) ''Terminal'' \<noteq> None
   \<and> open_cmd (get_application_commands (Some ''Terminal'') (custom_commands sample_config))
       = Some ''gnome-terminal''
   \<and> lookup_miss default_config (Some ''Notepad'')
   \<and> open_application (still_env 0 10 0) default_config (Some ''Notepad'') (session_with ''Slack'')
       = (False, session_with ''Slack'')
   \<and> simulate_activity (still_env 0 10 0) default_config (Some ''Notepad'') (session_with ''Slack'')
       = (None, session_with ''Slack'')"
proof -
  have t: "map_of (custom_commands sample_config) ''Terminal'' =
           Some \<lparr> open_cmd = Some ''gnome-terminal'', close_cmd = Some ''pkill -f gnome-terminal'',
             activities = Some [\<lparr> description = ''Checking system status'',
                                  commands = [''htop'', ''sleep 5'', ''q''] \<rparr>] \<rparr>"
    by (simp add: sample_config_def)
  from lookup_miss_is_silent [where cfg = sample_config and n = "''Terminal''"] t
  have x: "open_cmd (get_application_commands (Some ''Terminal'') (custom_commands sample_config))
       = Some ''gnome-terminal''" by simp
  from lookup_miss_is_silent [where cfg = default_config and a = "Some ''Notepad''"
         and w = "still_env 0 10 0" and s = "session_with ''Slack''"] notepad_miss
  have y: "open_application (still_env 0 10 0) default_config (Some ''Notepad'') (session_with ''Slack'')
       = (False, session_with ''Slack'')
   \<and> simulate_activity (still_env 0 10 0) default_config (Some ''Notepad'') (session_with ''Slack'')
       = (None, session_with ''Slack'')" by blast
  show ?thesis using t x y notepad_miss by simp
qed


subsection \<open>Where the claims as stated fail\<close>

text \<open>
  Claim C5, as it is stated, fails for a list with a repeated name: the list \<open>[A, A]\<close> has
  two entries and holds the current application \<open>A\<close>, the exclusion leaves nothing, and
  the fallback to the full list returns \<open>A\<close>.
\<close>

theorem get_next_app_duplicates_counterexample:
  "2 \<le> length (applications_used (config_with_apps [''A'', ''A'']))
   \<and> current_app (session_with ''A'') \<in> Some ` set (applications_used (config_with_apps [''A'', ''A'']))
   \<and> fst (get_next_app (still_env 0 10 0) (config_with_apps [''A'', ''A'']) (session_with ''A''))
       = current_app (session_with ''A'')"
  by (simp add: get_next_app_def config_with_apps_def session_with_def still_env_simps)

text \<open>
  Claim C8, as it is stated, fails: for a name that is in neither dictionary the three
  methods write no warning to the log, and \<open>close_application\<close> is not a no-operation,
  since it clears a session that is open for another application.
\<close>

theorem lookup_miss_not_logged_counterexample:
  "lookup_miss default_config (Some ''Notepad'')
   \<and> \<not> list_ex is_warning (trace (snd (open_application (still_env 0 10 0) default_config
                                          (Some ''Notepad'') (agent_init (still_env 0 10 0)))))
   \<and> \<not> list_ex is_warning (trace (snd (simulate_activity (still_env 0 10 0) default_config
                                          (Some ''Notepad'') (agent_init (still_env 0 10 0)))))
   \<and> \<not> list_ex is_warning (trace (close_application (still_env 0 10 0) default_config
                                     (Some ''Notepad'') (agent_init (still_env 0 10 0))))
   \<and> current_app (close_application (still_env 0 10 0) default_config (Some ''Notepad'')
                     (session_with ''Slack''))
       \<noteq> current_app (session_with ''Slack'')"
  by (simp add: notepad_miss lookup_miss_def get_application_commands_def default_config_def
      app_configs_def open_application_def simulate_activity_def close_application_def
      empty_profile_def agent_init_def randint_def session_with_def)

text \<open>
  Claim C7, as it is stated, fails for the method \<open>close_application\<close>: on the agent as
  constructed, where no application is open, closing Slack sends Slack's close command to
  the executor.
\<close>

theorem close_application_unguarded_counterexample:
  "current_app (agent_init (still_env 0 10 0)) = None
   \<and> app_start_time (agent_init (still_env 0 10 0)) = None
   \<and> executor_calls (new_events (agent_init (still_env 0 10 0))
        (close_application (still_env 0 10 0) default_config (Some ''Slack'')
           (agent_init (still_env 0 10 0))))
      = [(Close_call, Some ''Slack'', ''pkill -f slack'')]"
  by (simp add: close_application_def run_command_def logging_def emit_def new_events_def
      agent_init_def randint_def default_config_def slack_profile still_env_simps Let_def)


end
